theory Spec2Isabelle
  imports Complex_Main "HOL-Library.Multiset"
begin

section \<open>The clock tree of treetime (clock\_tree.py)\<close>

text \<open>
  The class \<open>ClockTree\<close> places the nodes of a rooted phylogeny in time. Its methods walk
  the tree (\<open>find_clades\<close>) and assign attributes to the node objects. The distributions
  the attributes hold are built by calls into \<open>Distribution\<close>, \<open>NodeInterpolator\<close>,
  \<open>BranchLenInterpolator\<close> and \<open>utils\<close>; \<open>clock_tree.py\<close> only calls them, so they are
  parameters of the embedding (the record \<open>library\<close> below), and every theorem holds for
  all values of these parameters. Python floats are read as real numbers: the file only
  subtracts, multiplies, negates and compares them.
\<close>

subsection \<open>Topology\<close>

text \<open>
  A clade is a node object with its list \<open>clades\<close> of children. Node objects are told apart
  by their identity, here a number. \<open>find_clades\<close> yields the nodes parent first
  (\<open>order='preorder'\<close>, the default) or children first (\<open>order='postorder'\<close>).
\<close>

datatype clade = Clade (ident: nat) (clades: "clade list")

fun preorder :: "clade \<Rightarrow> nat list" where
  "preorder (Clade i cs) = i # concat (map preorder cs)"

fun postorder :: "clade \<Rightarrow> nat list" where
  "postorder (Clade i cs) = concat (map postorder cs) @ [i]"

datatype traversal = Preorder | Postorder

definition find_clades :: "traversal \<Rightarrow> clade \<Rightarrow> nat list" where
  "find_clades order t = (case order of Preorder \<Rightarrow> preorder t | Postorder \<Rightarrow> postorder t)"

text \<open>The pairs (parent, child) of the tree, the children of one parent in their order.\<close>

fun edges :: "clade \<Rightarrow> (nat \<times> nat) list" where
  "edges (Clade i cs) = map (\<lambda>c. (i, ident c)) cs @ concat (map edges cs)"

text \<open>\<open>node.clades\<close>, \<open>node.is_terminal()\<close> and the parent pointer \<open>node.up\<close> (\<open>None\<close> at the root).\<close>

definition clades_of :: "clade \<Rightarrow> nat \<Rightarrow> nat list" where
  "clades_of t n = map snd (filter (\<lambda>e. fst e = n) (edges t))"

definition is_terminal :: "clade \<Rightarrow> nat \<Rightarrow> bool" where
  "is_terminal t n = (clades_of t n = [])"

definition up :: "clade \<Rightarrow> nat \<Rightarrow> nat option" where
  "up t n = map_of (map (\<lambda>e. (snd e, fst e)) (edges t)) n"

text \<open>Node objects are distinct: no identity occurs twice in the tree.\<close>

definition distinct_nodes :: "clade \<Rightarrow> bool" where
  "distinct_nodes t = distinct (preorder t)"

subsection \<open>Node attributes and the state of a ClockTree\<close>

text \<open>
  The attributes the file assigns to a node. \<open>None\<close> is Python's \<open>None\<close> for the attributes
  the file sets to \<open>None\<close> (\<open>numdate_given\<close>, \<open>abs_t\<close>, \<open>branch_length_interpolator\<close>,
  \<open>msg_to_parent\<close>, \<open>msg_from_parent\<close>, and \<open>marginal_lh\<close>, \<open>joint_lh\<close> which copy
  \<open>msg_to_parent\<close> at the root). For \<open>bad_branch\<close>, which the file tests with \<open>hasattr\<close>, and
  for the numbers \<open>time_before_present\<close>, \<open>branch_length\<close>, \<open>clock_length\<close>, \<open>numdate\<close> and
  the string \<open>date\<close>, \<open>None\<close> says that the attribute has not been assigned. The dictionary
  \<open>msgs_from_leaves\<close> is the list of its items in the order they were inserted.
\<close>

record 'd node =
  numdate_given :: "real option"
  bad_branch :: "bool option"
  has_sequence :: bool
  abs_t :: "real option"
  branch_length_interpolator :: "'d option"
  msg_to_parent :: "'d option"
  msgs_from_leaves :: "(nat \<times> 'd) list"
  msg_from_parent :: "'d option"
  marginal_lh :: "'d option"
  joint_lh :: "'d option"
  time_before_present :: "real option"
  branch_length :: "real option"
  clock_length :: "real option"
  numdate :: "real option"
  date :: "string option"

text \<open>\<open>utils.DateConversion\<close>: the fields the file reads.\<close>

record date_conversion =
  slope :: real
  intercept :: real
  r_val :: real

text \<open>A call \<open>self.logger(text % args, level, warn=...)\<close>, kept as it was made.\<close>

record log_entry =
  message :: string
  args :: "real list"
  level :: nat
  warn :: bool

text \<open>
  The instance: its tree, the attributes of the node objects, and what it has logged
  (\<open>self.logger\<close>) and printed (\<open>print\<close>) so far.
\<close>

record 'd clock_tree =
  tree :: clade
  nodes :: "nat \<Rightarrow> 'd node"
  date2dist :: "date_conversion option"
  max_diam :: real
  one_mutation :: real
  logged :: "log_entry list"
  printed :: "string list"

text \<open>
  The code \<open>clock_tree.py\<close> calls and does not contain, as functions that return: an
  exception raised inside one of them is not part of the embedding. The arguments that can
  be \<open>None\<close> where a call is made are options. \<open>x_rescale\<close> is called for its effect
  on a distribution that \<open>shifted_x\<close> has just returned; the parameter gives the value that
  object holds after the call. The flag of \<open>convolve\<close> is \<open>None\<close> where the call leaves
  \<open>inverse_time\<close> out. \<open>BranchLenInterpolator\<close> gets the node and \<open>self.one_mutation\<close>
  (\<open>self.gtr\<close> does not change). \<open>date_string\<close> stands for the rendering of \<open>numdate\<close> as a
  calendar date with \<open>datetime\<close> at the end of \<open>convert_dates\<close>.
\<close>

record 'd library =
  delta_function :: "real \<Rightarrow> real \<Rightarrow> 'd"
  shifted_x :: "'d option \<Rightarrow> real \<Rightarrow> 'd"
  x_rescale :: "'d \<Rightarrow> real \<Rightarrow> 'd"
  convolve :: "'d \<Rightarrow> 'd option \<Rightarrow> bool option \<Rightarrow> 'd"
  multiply :: "'d option list \<Rightarrow> 'd"
  is_delta :: "'d \<Rightarrow> bool"
  peak_pos :: "'d \<Rightarrow> real"
  BranchLenInterpolator :: "nat \<Rightarrow> real \<Rightarrow> 'd"
  from_tree :: "'d clock_tree \<Rightarrow> real option \<Rightarrow> date_conversion"
  get_date :: "date_conversion \<Rightarrow> real \<Rightarrow> real"
  numeric_date :: real
  optimize_seq_and_branch_len :: "'d clock_tree \<Rightarrow> 'd clock_tree"
  date_string :: "real \<Rightarrow> string"

datatype error = AttributeError | NameError

definition logger :: "string \<Rightarrow> real list \<Rightarrow> nat \<Rightarrow> bool \<Rightarrow> 'd clock_tree \<Rightarrow> 'd clock_tree" where
  "logger msg xs lvl w s =
     s\<lparr>logged := logged s @ [\<lparr>message = msg, args = xs, level = lvl, warn = w\<rparr>]\<rparr>"

definition print :: "string \<Rightarrow> 'd clock_tree \<Rightarrow> 'd clock_tree" where
  "print msg s = s\<lparr>printed := printed s @ [msg]\<rparr>"

text \<open>Assigning attributes of the node object \<open>n\<close>.\<close>

definition set_node :: "nat \<Rightarrow> ('d node \<Rightarrow> 'd node) \<Rightarrow> 'd clock_tree \<Rightarrow> 'd clock_tree" where
  "set_node n f s = s\<lparr>nodes := (nodes s)(n := f (nodes s n))\<rparr>"

subsection \<open>init\_date\_constraints\<close>

text \<open>
  The loop body of lines 72 to 91. \<open>dc\<close> is \<open>self.date2dist\<close>, which the method has assigned
  just before the loop.
\<close>

definition init_node :: "'d library \<Rightarrow> date_conversion \<Rightarrow> nat \<Rightarrow> 'd clock_tree \<Rightarrow> 'd clock_tree" where
  "init_node lib dc n s =
     (let node = nodes s n in
      case numdate_given node of
        Some d \<Rightarrow>
          if bad_branch node = Some True then
            set_node n (\<lambda>v. v\<lparr>numdate_given := None, abs_t := None, msg_to_parent := None\<rparr>)
              (print ''Branch is marked as bad, excluding it from the optimization process Will be optimized freely'' s)
          else
            let a = (numeric_date lib - d) * \<bar>slope dc\<bar> in
            set_node n (\<lambda>v. v\<lparr>abs_t := Some a,
                               msg_to_parent := Some (delta_function lib a 1)\<rparr>) s
      | None \<Rightarrow>
          set_node n (\<lambda>v. v\<lparr>numdate_given := None, abs_t := None, msg_to_parent := None\<rparr>) s)"

text \<open>Lines 63 to 67: an interpolator for every node but the root.\<close>

definition init_interpolator :: "'d library \<Rightarrow> nat \<Rightarrow> 'd clock_tree \<Rightarrow> 'd clock_tree" where
  "init_interpolator lib n s =
     (if up (tree s) n \<noteq> None
      then set_node n (\<lambda>v. v\<lparr>branch_length_interpolator :=
                               Some (BranchLenInterpolator lib n (one_mutation s))\<rparr>) s
      else set_node n (\<lambda>v. v\<lparr>branch_length_interpolator := None\<rparr>) s)"

text \<open>The setter of the property \<open>date2dist\<close>, for a value that is not \<open>None\<close>.\<close>

definition set_date2dist :: "date_conversion \<Rightarrow> 'd clock_tree \<Rightarrow> 'd clock_tree" where
  "set_date2dist val s =
     (logger ''TreeTime.date2dist: Setting new date to branchlength conversion. slope=%f, R2=%.4f''
        [slope val, r_val val] 2 False s)\<lparr>date2dist := Some val\<rparr>"

text \<open>
  Lines 55 to 58: the entry of the method. \<open>optimize_seq_and_branch_len\<close> is inherited
  from \<open>TreeAnc\<close>; its keyword arguments are left out.
\<close>

definition init_date_constraints_entry :: "'d library \<Rightarrow> bool \<Rightarrow> 'd clock_tree \<Rightarrow> 'd clock_tree" where
  "init_date_constraints_entry lib ancestral_inference s =
     (let s1 = logger ''ClockTree.init_date_constraints...'' [] 2 False s in
      if ancestral_inference \<or> \<not> has_sequence (nodes s1 (ident (tree s1)))
      then optimize_seq_and_branch_len lib s1 else s1)"

text \<open>Lines 55 to 69, up to the loop over the nodes.\<close>

definition init_date_constraints_prepare ::
  "'d library \<Rightarrow> bool \<Rightarrow> real option \<Rightarrow> 'd clock_tree \<Rightarrow> 'd clock_tree" where
  "init_date_constraints_prepare lib ancestral_inference slope_arg s =
     (let s2 = init_date_constraints_entry lib ancestral_inference s;
          s3 = print (CHR 0x0A # ''----- Initializing branch length interpolation objects...'' @ [CHR 0x0A]) s2;
          s4 = fold (init_interpolator lib) (find_clades Preorder (tree s3)) s3;
          s5 = set_date2dist (from_tree lib s4 slope_arg) s4
      in s5\<lparr>max_diam := intercept (from_tree lib s4 slope_arg)\<rparr>)"

text \<open>
  The method. The loop reads \<open>self.date2dist.slope\<close>, an AttributeError if \<open>date2dist\<close> were
  \<open>None\<close>; the loop does not assign \<open>date2dist\<close>, so it is read once.
\<close>

definition init_date_constraints ::
  "'d library \<Rightarrow> bool \<Rightarrow> real option \<Rightarrow> 'd clock_tree \<Rightarrow> error + 'd clock_tree" where
  "init_date_constraints lib ancestral_inference slope_arg s =
     (let s5 = init_date_constraints_prepare lib ancestral_inference slope_arg s in
      case date2dist s5 of
        None \<Rightarrow> Inl AttributeError
      | Some dc \<Rightarrow> Inr (fold (init_node lib dc) (find_clades Preorder (tree s5)) s5))"

subsection \<open>The upward pass: \_ml\_t\_leaves\_root\<close>

text \<open>
  \<open>_send_message(node)\<close>. Its only call is under the test \<open>clade.msg_to_parent is not None\<close>;
  \<open>m\<close> is that message.
\<close>

definition send_message :: "'d library \<Rightarrow> 'd node \<Rightarrow> 'd \<Rightarrow> 'd" where
  "send_message lib node m =
     (if is_delta lib m
      then shifted_x lib (branch_length_interpolator node) (peak_pos lib m)
      else convolve lib m (branch_length_interpolator node) None)"

text \<open>The dictionary comprehension of lines 147 and 148.\<close>

definition collect_msgs :: "'d library \<Rightarrow> (nat \<Rightarrow> 'd node) \<Rightarrow> nat list \<Rightarrow> (nat \<times> 'd) list" where
  "collect_msgs lib ns cs =
     concat (map (\<lambda>c. case msg_to_parent (ns c) of
                         None \<Rightarrow> []
                       | Some m \<Rightarrow> [(c, send_message lib (ns c) m)]) cs)"

definition leaves_root_node :: "'d library \<Rightarrow> nat \<Rightarrow> 'd clock_tree \<Rightarrow> 'd clock_tree" where
  "leaves_root_node lib n s =
     (if is_terminal (tree s) n then set_node n (\<lambda>v. v\<lparr>msgs_from_leaves := []\<rparr>) s
      else
        let msgs = collect_msgs lib (nodes s) (clades_of (tree s) n);
            s1 = set_node n (\<lambda>v. v\<lparr>msgs_from_leaves := msgs\<rparr>) s
        in if length msgs < 1 then s1
           else set_node n (\<lambda>v. v\<lparr>msg_to_parent := Some (multiply lib (map (\<lambda>kv. Some (snd kv)) msgs))\<rparr>) s1)"

definition ml_t_leaves_root :: "'d library \<Rightarrow> 'd clock_tree \<Rightarrow> 'd clock_tree" where
  "ml_t_leaves_root lib s =
     fold (leaves_root_node lib) (find_clades Postorder (tree s))
       (logger ''ClockTree: Propagating leaves -> root...'' [] 2 False
         (logger ''ClockTree: Maximum likelihood tree optimization with temporal constraints:'' [] 1 False s))"

subsection \<open>The downward pass: \_ml\_t\_root\_leaves\<close>

text \<open>The messages of the parent's dictionary under the keys other than \<open>n\<close>, and the
  parent's own message from above when it has one.\<close>

definition complementary_msgs :: "'d node \<Rightarrow> nat \<Rightarrow> 'd list" where
  "complementary_msgs parent n =
     map snd (filter (\<lambda>kv. fst kv \<noteq> n) (msgs_from_leaves parent)) @
     (case msg_from_parent parent of None \<Rightarrow> [] | Some m \<Rightarrow> [m])"

definition root_leaves_node :: "'d library \<Rightarrow> nat \<Rightarrow> 'd clock_tree \<Rightarrow> 'd clock_tree" where
  "root_leaves_node lib n s =
     (case up (tree s) n of
        None \<Rightarrow> set_node n (\<lambda>v. v\<lparr>msg_from_parent := None\<rparr>) s
      | Some p \<Rightarrow>
          let msg_parent_to_node = multiply lib (map Some (complementary_msgs (nodes s p) n));
              res = convolve lib msg_parent_to_node (branch_length_interpolator (nodes s n)) (Some False)
          in set_node n (\<lambda>v. v\<lparr>msg_from_parent := Some res\<rparr>) s)"

definition ml_t_root_leaves :: "'d library \<Rightarrow> 'd clock_tree \<Rightarrow> 'd clock_tree" where
  "ml_t_root_leaves lib s =
     fold (root_leaves_node lib) (find_clades Preorder (tree s))
       (logger ''ClockTree: Propagating root -> leaves...'' [] 2 False s)"

subsection \<open>Finalization: \_set\_final\_dates\<close>

text \<open>
  A loop that stops at the first exception: the result is then the exception, and the
  attributes assigned before it are not kept.
\<close>

fun fold_err :: "('a \<Rightarrow> 's \<Rightarrow> error + 's) \<Rightarrow> 'a list \<Rightarrow> 's \<Rightarrow> error + 's" where
  "fold_err f [] s = Inr s"
| "fold_err f (x # xs) s = (case f x s of Inl e \<Rightarrow> Inl e | Inr s' \<Rightarrow> fold_err f xs s')"

text \<open>\<open>collapse_func(dist)\<close>: \<open>dist.is_delta\<close> of \<open>None\<close> is an AttributeError.\<close>

definition collapse_func :: "'d library \<Rightarrow> 'd option \<Rightarrow> error + real" where
  "collapse_func lib distr =
     (case distr of
        None \<Rightarrow> Inl AttributeError
      | Some d \<Rightarrow> Inr (if is_delta lib d then peak_pos lib d else peak_pos lib d))"

text \<open>The transformed interpolator \<open>res\<close> of lines 233 and 234, and the joint distribution
  of lines 236 to 239.\<close>

definition shifted_rescaled :: "'d library \<Rightarrow> 'd node \<Rightarrow> real \<Rightarrow> 'd" where
  "shifted_rescaled lib node t_up =
     x_rescale lib (shifted_x lib (branch_length_interpolator node) (- t_up)) (- 1)"

definition joint_of :: "'d library \<Rightarrow> 'd node \<Rightarrow> real \<Rightarrow> 'd" where
  "joint_of lib node t_up =
     (case msg_to_parent node of
        Some m \<Rightarrow> multiply lib [Some m, Some (shifted_rescaled lib node t_up)]
      | None \<Rightarrow> shifted_rescaled lib node t_up)"

definition set_final_dates_node :: "'d library \<Rightarrow> nat \<Rightarrow> 'd clock_tree \<Rightarrow> error + 'd clock_tree" where
  "set_final_dates_node lib n s =
     (let node = nodes s n in
      case up (tree s) n of
        None \<Rightarrow>
          (case collapse_func lib (msg_to_parent node) of
             Inl e \<Rightarrow> Inl e
           | Inr t \<Rightarrow>
               Inr (set_node n (\<lambda>v. v\<lparr>marginal_lh := msg_to_parent node,
                                       joint_lh := msg_to_parent node,
                                       time_before_present := Some t,
                                       branch_length := Some (one_mutation s),
                                       clock_length := Some (one_mutation s)\<rparr>) s))
      | Some p \<Rightarrow>
          (case time_before_present (nodes s p) of
             None \<Rightarrow> Inl AttributeError
           | Some t_up \<Rightarrow>
               (case collapse_func lib (Some (joint_of lib node t_up)) of
                  Inl e \<Rightarrow> Inl e
                | Inr t \<Rightarrow>
                    Inr (set_node n (\<lambda>v. v\<lparr>marginal_lh := Some (multiply lib [msg_from_parent node, msg_to_parent node]),
                                            joint_lh := Some (joint_of lib node t_up),
                                            time_before_present := Some t,
                                            branch_length := Some (t_up - t),
                                            clock_length := Some (t_up - t)\<rparr>) s))))"

definition set_final_dates :: "'d library \<Rightarrow> 'd clock_tree \<Rightarrow> error + 'd clock_tree" where
  "set_final_dates lib s =
     fold_err (set_final_dates_node lib) (find_clades Preorder (tree s))
       (logger ''ClockTree: Setting dates and node distributions...'' [] 2 False s)"

subsection \<open>Calendar conversion: convert\_dates\<close>

definition convert_dates_node :: "'d library \<Rightarrow> real \<Rightarrow> nat \<Rightarrow> 'd clock_tree \<Rightarrow> error + 'd clock_tree" where
  \<open>convert_dates_node lib now n s =
     (case date2dist s of
        None \<Rightarrow> Inl AttributeError
      | Some dc \<Rightarrow>
          (case time_before_present (nodes s n) of
             None \<Rightarrow> Inl AttributeError
           | Some t \<Rightarrow>
               let years_bp = get_date lib dc t;
                   s1 = (if years_bp < 0 then
                           (if bad_branch (nodes s n) = None \<or> bad_branch (nodes s n) = Some False
                            then logger ''ClockTree.convert_dates: ERROR: The node is later than today, but it is notmarked as "BAD", which indicates the error in the likelihood optimization.'' [] 4 True s
                            else logger ''ClockTree.convert_dates: Warning! node, which is marked as "BAD" optimized later than present day'' [] 4 True s)
                         else s)
               in Inr (set_node n (\<lambda>v. v\<lparr>numdate := Some (now - years_bp),
                                          date := Some (date_string lib (now - years_bp))\<rparr>) s1)))\<close>

definition convert_dates :: "'d library \<Rightarrow> 'd clock_tree \<Rightarrow> error + 'd clock_tree" where
  "convert_dates lib s =
     fold_err (convert_dates_node lib (numeric_date lib)) (find_clades Preorder (tree s)) s"

text \<open>
  Three of the messages, for the statements below: the line \<open>init_date_constraints\<close>
  prints for a dated node that is marked bad, and the two entries \<open>convert_dates\<close> logs
  for a node that lies after today, the first for a node that is not marked bad.
\<close>

definition bad_branch_notice :: string where
  "bad_branch_notice = ''Branch is marked as bad, excluding it from the optimization process Will be optimized freely''"




subsection \<open>make\_time\_tree\<close>

text \<open>
  The method does not use \<open>self\<close>: each of its four lines looks the name \<open>myTree\<close> up in the
  globals of the module. \<open>clock_tree.py\<close> binds that name only when it is run as a script.
  Instances are objects, here the values of a heap at their addresses; \<open>myTree\<close> is the
  address the global name is bound to, or \<open>None\<close> when it is unbound (a NameError).
\<close>

definition make_time_tree ::
  "'d library \<Rightarrow> nat option \<Rightarrow> nat \<Rightarrow> (nat \<Rightarrow> 'd clock_tree) \<Rightarrow> error + (nat \<Rightarrow> 'd clock_tree)" where
  "make_time_tree lib myTree self heap =
     (case myTree of
        None \<Rightarrow> Inl NameError
      | Some g \<Rightarrow>
          (case set_final_dates lib (ml_t_root_leaves lib (ml_t_leaves_root lib (heap g))) of
             Inl e \<Rightarrow> Inl e
           | Inr s3 \<Rightarrow>
               (case convert_dates lib s3 of
                  Inl e \<Rightarrow> Inl e
                | Inr s4 \<Rightarrow> Inr (heap(g := s4)))))"

text \<open>What a run that may have raised leaves at a node, and what it has logged.\<close>

definition node_after :: "error + 'd clock_tree \<Rightarrow> nat \<Rightarrow> error + 'd node" where
  "node_after r n = (case r of Inl e \<Rightarrow> Inl e | Inr s \<Rightarrow> Inr (nodes s n))"

definition logged_after :: "error + 'd clock_tree \<Rightarrow> error + log_entry list" where
  "logged_after r = (case r of Inl e \<Rightarrow> Inl e | Inr s \<Rightarrow> Inr (logged s))"

subsection \<open>An instance to run the methods on\<close>

text \<open>
  To run the methods on an example the parameters need values. In this instance a
  distribution is the term of the calls that built it, so that the calls a method made can
  be read off its result. \<open>peak\<close> reads a position off such a term: a delta sits where it was
  put, a shift adds, a rescaling multiplies, and a product sits where its first operand does.
\<close>

datatype dist_term =
    Delta real real
  | Interp nat real
  | Shifted "dist_term option" real
  | Rescaled dist_term real
  | Convolved dist_term "dist_term option" "bool option"
  | Multiplied "dist_term option list"

primrec peak :: "dist_term \<Rightarrow> real" where
  "peak (Delta x w) = x"
| "peak (Interp n om) = om"
| "peak (Shifted d x) = (case map_option peak d of None \<Rightarrow> x | Some y \<Rightarrow> y + x)"
| "peak (Rescaled d a) = a * peak d"
| "peak (Convolved a b f) = peak a + (case map_option peak b of None \<Rightarrow> 0 | Some y \<Rightarrow> y)"
| "peak (Multiplied ds) =
     (case map (map_option peak) ds of [] \<Rightarrow> 0 | None # _ \<Rightarrow> 0 | Some y # _ \<Rightarrow> y)"

definition delta_term :: "dist_term \<Rightarrow> bool" where
  "delta_term d = (case d of Delta x w \<Rightarrow> True | _ \<Rightarrow> False)"

text \<open>
  Modelled from the spec: \<open>DateConversion.get_date\<close>, which is in \<open>utils\<close> and not in
  \<open>clock_tree.py\<close>; the spec gives \<open>get_date(t) = (intercept - t) / |slope|\<close>.
\<close>

definition spec_get_date :: "date_conversion \<Rightarrow> real \<Rightarrow> real" where
  "spec_get_date dc t = (intercept dc - t) / \<bar>slope dc\<bar>"

definition ex_lib :: "dist_term library" where
  "ex_lib = \<lparr>delta_function = Delta, shifted_x = Shifted, x_rescale = Rescaled,
     convolve = Convolved, multiply = Multiplied, is_delta = delta_term, peak_pos = peak,
     BranchLenInterpolator = Interp,
     from_tree = (\<lambda>s k. \<lparr>slope = (case k of None \<Rightarrow> 1 / 2 | Some x \<Rightarrow> x), intercept = 20, r_val = 1\<rparr>),
     get_date = spec_get_date, numeric_date = 2017,
     optimize_seq_and_branch_len = (\<lambda>s. s), date_string = (\<lambda>x. [])\<rparr>"

text \<open>
  A tree of five nodes: the root 0 with the leaf 5 and the internal node 2, which has the
  leaves 3 and 4. The leaves 5 and 3 are dated; the leaf 4 is dated and marked bad. The
  states after each method follow; \<open>ex_start\<close> stands in where a method would have raised.
\<close>

definition ex_tree :: clade where
  "ex_tree = Clade 0 [Clade 5 [], Clade 2 [Clade 3 [], Clade 4 []]]"

definition blank :: "dist_term node" where
  "blank = \<lparr>numdate_given = None, bad_branch = None, has_sequence = True, abs_t = None,
     branch_length_interpolator = None, msg_to_parent = None, msgs_from_leaves = [],
     msg_from_parent = None, marginal_lh = None, joint_lh = None,
     time_before_present = None, branch_length = None, clock_length = None,
     numdate = None, date = None\<rparr>"

definition ex_start :: "dist_term clock_tree" where
  "ex_start = \<lparr>tree = ex_tree,
     nodes = (\<lambda>n. blank)
       (5 := blank\<lparr>numdate_given := Some 2015\<rparr>,
        2 := blank\<lparr>bad_branch := Some False\<rparr>,
        3 := blank\<lparr>numdate_given := Some 2011, bad_branch := Some False\<rparr>,
        4 := blank\<lparr>numdate_given := Some 2016, bad_branch := Some True\<rparr>),
     date2dist = None, max_diam = 0, one_mutation = 1 / 4, logged = [], printed = []\<rparr>"

definition finished :: "error + dist_term clock_tree \<Rightarrow> dist_term clock_tree" where
  "finished r = (case r of Inl e \<Rightarrow> ex_start | Inr s \<Rightarrow> s)"

definition ex_dated :: "dist_term clock_tree" where
  "ex_dated = finished (init_date_constraints ex_lib False None ex_start)"

definition ex_up :: "dist_term clock_tree" where
  "ex_up = ml_t_leaves_root ex_lib ex_dated"

definition ex_down :: "dist_term clock_tree" where
  "ex_down = ml_t_root_leaves ex_lib ex_up"

definition ex_final :: "dist_term clock_tree" where
  "ex_final = finished (set_final_dates ex_lib ex_down)"


definition ex_prepared :: "dist_term clock_tree" where
  "ex_prepared = init_date_constraints_prepare ex_lib False None ex_start"

definition ex_converted :: "dist_term clock_tree" where
  "ex_converted = finished (convert_dates ex_lib ex_final)"


text \<open>
  The same library with an \<open>optimize_seq_and_branch_len\<close> that assigns a branch length, to
  the node 2.
\<close>

definition ex_lib_opt :: "dist_term library" where
  "ex_lib_opt = ex_lib\<lparr>optimize_seq_and_branch_len :=
     (\<lambda>s. set_node 2 (\<lambda>v. v\<lparr>branch_length := Some 1\<rparr>) s)\<rparr>"

text \<open>Two instances, at the addresses 2 and 3 of a heap.\<close>

definition ex_heap :: "nat \<Rightarrow> dist_term clock_tree" where
  "ex_heap = (\<lambda>a. ex_start)(2 := ex_dated, 3 := ex_dated)"

definition instance_after ::
  "error + (nat \<Rightarrow> 'd clock_tree) \<Rightarrow> nat \<Rightarrow> nat \<Rightarrow> error + 'd node" where
  "instance_after r a n = (case r of Inl e \<Rightarrow> Inl e | Inr h \<Rightarrow> Inr (nodes (h a) n))"

section \<open>Properties\<close>

subsection \<open>Traversal orders\<close>

lemma mset_postorder: "mset (postorder t) = mset (preorder t)"
proof (induction t)
  case (Clade i cs)
  then have "map (\<lambda>c. mset (postorder c)) cs = map (\<lambda>c. mset (preorder c)) cs"
    by simp
  then have "sum_list (map (\<lambda>c. mset (postorder c)) cs) = sum_list (map (\<lambda>c. mset (preorder c)) cs)"
    by (rule arg_cong)
  then have "mset (concat (map postorder cs)) = mset (concat (map preorder cs))"
    by (simp add: mset_concat comp_def)
  then show ?case by simp
qed

lemma set_postorder: "set (postorder t) = set (preorder t)"
  using mset_postorder [of t] by (metis set_mset_mset)

lemma distinct_postorder: "distinct (postorder t) = distinct (preorder t)"
  using mset_postorder [of t] by (metis mset_eq_imp_distinct_iff)

lemma ident_in_preorder: "ident t \<in> set (preorder t)"
  by (cases t) simp

lemma edge_preorder_split:
  "(p, c) \<in> set (edges t) \<Longrightarrow> \<exists>pre post. preorder t = pre @ c # post \<and> p \<in> set pre"
proof (induction t)
  case (Clade i cs)
  from Clade.prems consider
    (child) k where "k \<in> set cs" "p = i" "c = ident k"
  | (below) k where "k \<in> set cs" "(p, c) \<in> set (edges k)"
    by auto
  then show ?case
  proof cases
    case child
    then have "c \<in> set (concat (map preorder cs))"
      using ident_in_preorder [of k] by auto
    then obtain a b where "concat (map preorder cs) = a @ c # b"
      by (meson split_list)
    then have "preorder (Clade i cs) = (i # a) @ c # b \<and> p \<in> set (i # a)"
      using child by simp
    then show ?thesis by blast
  next
    case below
    then obtain pre post where k: "preorder k = pre @ c # post" "p \<in> set pre"
      using Clade.IH by blast
    from below(1) obtain cs1 cs2 where cs: "cs = cs1 @ k # cs2"
      by (meson split_list)
    have "preorder (Clade i cs) =
        (i # concat (map preorder cs1) @ pre) @ c # (post @ concat (map preorder cs2))"
      using k cs by simp
    moreover have "p \<in> set (i # concat (map preorder cs1) @ pre)"
      using k by simp
    ultimately show ?thesis by blast
  qed
qed

lemma edge_postorder_split:
  "(p, c) \<in> set (edges t) \<Longrightarrow> \<exists>pre post. postorder t = pre @ p # post \<and> c \<in> set pre"
proof (induction t)
  case (Clade i cs)
  from Clade.prems consider
    (child) k where "k \<in> set cs" "p = i" "c = ident k"
  | (below) k where "k \<in> set cs" "(p, c) \<in> set (edges k)"
    by auto
  then show ?case
  proof cases
    case child
    then have "c \<in> set (concat (map postorder cs))"
      using ident_in_preorder [of k] set_postorder [of k] by auto
    then have "postorder (Clade i cs) = concat (map postorder cs) @ p # [] \<and>
        c \<in> set (concat (map postorder cs))"
      using child by simp
    then show ?thesis by blast
  next
    case below
    then obtain pre post where k: "postorder k = pre @ p # post" "c \<in> set pre"
      using Clade.IH by blast
    from below(1) obtain cs1 cs2 where cs: "cs = cs1 @ k # cs2"
      by (meson split_list)
    have "postorder (Clade i cs) =
        (concat (map postorder cs1) @ pre) @ p # (post @ concat (map postorder cs2) @ [i])"
      using k cs by simp
    moreover have "c \<in> set (concat (map postorder cs1) @ pre)"
      using k by simp
    ultimately show ?thesis by blast
  qed
qed

lemma up_edge: "up t n = Some p \<Longrightarrow> (p, n) \<in> set (edges t)"
  unfolding up_def by (auto dest!: map_of_SomeD)

lemma clades_of_edge: "c \<in> set (clades_of t n) \<longleftrightarrow> (n, c) \<in> set (edges t)"
  unfolding clades_of_def by force

lemma split_unique:
  "distinct (pre @ n # post) \<Longrightarrow> pre @ n # post = pre' @ n # post' \<Longrightarrow> pre = pre' \<and> post = post'"
  by (metis append_Cons_eq_iff distinct_append distinct.simps(2) Un_iff set_append not_distinct_conv_prefix)

lemma parent_before_child:
  assumes "distinct (preorder t)" "up t n = Some p" "preorder t = pre @ n # post"
  shows "p \<in> set pre"
  using edge_preorder_split [OF up_edge [OF assms(2)]] split_unique assms(1,3) by metis

lemma child_before_parent:
  assumes "distinct (preorder t)" "c \<in> set (clades_of t n)" "postorder t = pre @ n # post"
  shows "c \<in> set pre"
proof -
  have "(n, c) \<in> set (edges t)" using assms(2) clades_of_edge by simp
  moreover have "distinct (pre @ n # post)" using assms(1,3) distinct_postorder [of t] by simp
  ultimately show ?thesis using edge_postorder_split split_unique assms(3) by metis
qed

lemma edge_nodes: "(p, c) \<in> set (edges t) \<Longrightarrow> p \<in> set (preorder t) \<and> c \<in> set (preorder t)"
  using edge_preorder_split [of p c t] by auto

lemma internal_in_tree: "\<not> is_terminal t n \<Longrightarrow> n \<in> set (preorder t)"
proof -
  assume "\<not> is_terminal t n"
  then obtain c where "c \<in> set (clades_of t n)"
    unfolding is_terminal_def by (cases "clades_of t n") auto
  then show ?thesis using clades_of_edge edge_nodes by blast
qed

subsection \<open>Loops over the nodes\<close>

lemma nodes_logger [simp]: "nodes (logger m a l w s) = nodes s"
  by (simp add: logger_def)

lemma tree_logger [simp]: "tree (logger m a l w s) = tree s"
  by (simp add: logger_def)

lemma nodes_print [simp]: "nodes (print m s) = nodes s"
  by (simp add: print_def)

lemma tree_print [simp]: "tree (print m s) = tree s"
  by (simp add: print_def)

lemma nodes_set_node: "nodes (set_node n f s) m = (if m = n then f (nodes s n) else nodes s m)"
  by (simp add: set_node_def)

lemma tree_set_node [simp]: "tree (set_node n f s) = tree s"
  by (simp add: set_node_def)

lemma fold_frame:
  assumes "\<forall>n s m. m \<noteq> n \<longrightarrow> nodes (f n s) m = nodes s m"
  shows "m \<notin> set xs \<Longrightarrow> nodes (fold f xs s) m = nodes s m"
  using assms by (induction xs arbitrary: s) auto

lemma fold_tree:
  assumes "\<forall>n s. tree (f n s) = tree s"
  shows "tree (fold f xs s) = tree s"
  using assms by (induction xs arbitrary: s) auto

lemma fold_at:
  assumes frame: "\<forall>n s m. m \<noteq> n \<longrightarrow> nodes (f n s) m = nodes s m"
    and dist: "distinct (pre @ n # post)"
  shows "nodes (fold f (pre @ n # post) s) n = nodes (f n (fold f pre s)) n"
    and "nodes (fold f pre s) n = nodes s n"
    and "m \<in> set pre \<Longrightarrow> nodes (fold f pre s) m = nodes (fold f (pre @ n # post) s) m"
proof -
  from dist have n: "n \<notin> set pre" "n \<notin> set post" by auto
  show "nodes (fold f (pre @ n # post) s) n = nodes (f n (fold f pre s)) n"
    using fold_frame [OF frame n(2)] by simp
  show "nodes (fold f pre s) n = nodes s n"
    using fold_frame [OF frame n(1)] by simp
  show "nodes (fold f pre s) m = nodes (fold f (pre @ n # post) s) m" if "m \<in> set pre"
  proof -
    from that dist have "m \<notin> set (n # post)" by auto
    then have "nodes (fold f (n # post) (fold f pre s)) m = nodes (fold f pre s) m"
      by (rule fold_frame [OF frame])
    then show ?thesis by simp
  qed
qed


lemmas topology_defs = find_clades_def is_terminal_def clades_of_def up_def distinct_nodes_def

lemmas state_defs = set_node_def logger_def print_def Let_def

lemmas init_defs = init_date_constraints_def init_date_constraints_prepare_def
  init_date_constraints_entry_def init_node_def init_interpolator_def set_date2dist_def

lemmas upward_defs = ml_t_leaves_root_def leaves_root_node_def collect_msgs_def send_message_def

lemmas downward_defs = ml_t_root_leaves_def root_leaves_node_def complementary_msgs_def

lemmas final_defs = set_final_dates_def set_final_dates_node_def collapse_func_def joint_of_def
  shifted_rescaled_def

lemmas convert_defs = convert_dates_def convert_dates_node_def


subsection \<open>The example, method by method\<close>

lemma ex_lib_eval:
  "delta_function ex_lib = Delta" "shifted_x ex_lib = Shifted" "x_rescale ex_lib = Rescaled"
  "convolve ex_lib = Convolved" "multiply ex_lib = Multiplied" "is_delta ex_lib = delta_term"
  "peak_pos ex_lib = peak" "BranchLenInterpolator ex_lib = Interp"
  "from_tree ex_lib s k = \<lparr>slope = (case k of None \<Rightarrow> 1 / 2 | Some x \<Rightarrow> x), intercept = 20, r_val = 1\<rparr>"
  "get_date ex_lib = spec_get_date" "numeric_date ex_lib = 2017"
  "optimize_seq_and_branch_len ex_lib s = s" "date_string ex_lib x = []"
  by (simp_all add: ex_lib_def)

lemmas ex_base = ex_lib_eval blank_def delta_term_def spec_get_date_def

lemma ex_dated_eval:
  "tree ex_dated = ex_tree"
  "date2dist ex_dated = Some \<lparr>slope = 1 / 2, intercept = 20, r_val = 1\<rparr>"
  "one_mutation ex_dated = 1 / 4"
  "map message (logged ex_dated) =
     [''ClockTree.init_date_constraints...'',
      ''TreeTime.date2dist: Setting new date to branchlength conversion. slope=%f, R2=%.4f'']"
  "nodes ex_dated 0 = blank"
  "nodes ex_dated 5 = blank\<lparr>numdate_given := Some 2015, abs_t := Some 1,
     branch_length_interpolator := Some (Interp 5 (1 / 4)), msg_to_parent := Some (Delta 1 1)\<rparr>"
  "nodes ex_dated 2 = blank\<lparr>bad_branch := Some False,
     branch_length_interpolator := Some (Interp 2 (1 / 4))\<rparr>"
  "nodes ex_dated 3 = blank\<lparr>numdate_given := Some 2011, bad_branch := Some False,
     abs_t := Some 3, branch_length_interpolator := Some (Interp 3 (1 / 4)),
     msg_to_parent := Some (Delta 3 1)\<rparr>"
  "nodes ex_dated 4 = blank\<lparr>bad_branch := Some True,
     branch_length_interpolator := Some (Interp 4 (1 / 4))\<rparr>"
  by (simp_all add: ex_dated_def finished_def ex_start_def ex_base ex_tree_def topology_defs state_defs init_defs)

lemma ex_tree_eval:
  "distinct_nodes ex_tree"
  "preorder ex_tree = [0, 5, 2, 3, 4]"
  "postorder ex_tree = [5, 3, 4, 2, 0]"
  "up ex_tree 0 = None" "up ex_tree 5 = Some 0" "up ex_tree 2 = Some 0"
  "up ex_tree 3 = Some 2" "up ex_tree 4 = Some 2"
  "clades_of ex_tree 0 = [5, 2]" "clades_of ex_tree 2 = [3, 4]"
  "clades_of ex_tree 5 = []" "clades_of ex_tree 3 = []" "clades_of ex_tree 4 = []"
  by (simp_all add: ex_tree_def topology_defs)

lemma ex_up_eval:
  "tree ex_up = ex_tree"
  "date2dist ex_up = date2dist ex_dated"
  "one_mutation ex_up = one_mutation ex_dated"
  "map message (logged ex_up) = map message (logged ex_dated) @
     [''ClockTree: Maximum likelihood tree optimization with temporal constraints:'',
      ''ClockTree: Propagating leaves -> root...'']"
  "nodes ex_up 5 = nodes ex_dated 5"
  "nodes ex_up 3 = nodes ex_dated 3"
  "nodes ex_up 4 = nodes ex_dated 4"
  "nodes ex_up 2 = (nodes ex_dated 2)\<lparr>
     msgs_from_leaves := [(3, Shifted (Some (Interp 3 (1 / 4))) 3)],
     msg_to_parent := Some (Multiplied [Some (Shifted (Some (Interp 3 (1 / 4))) 3)])\<rparr>"
  "nodes ex_up 0 = (nodes ex_dated 0)\<lparr>
     msgs_from_leaves :=
       [(5, Shifted (Some (Interp 5 (1 / 4))) 1),
        (2, Convolved (Multiplied [Some (Shifted (Some (Interp 3 (1 / 4))) 3)])
              (Some (Interp 2 (1 / 4))) None)],
     msg_to_parent := Some (Multiplied
       [Some (Shifted (Some (Interp 5 (1 / 4))) 1),
        Some (Convolved (Multiplied [Some (Shifted (Some (Interp 3 (1 / 4))) 3)])
                (Some (Interp 2 (1 / 4))) None)])\<rparr>"
  by (simp_all add: ex_up_def ex_dated_eval ex_tree_eval ex_base find_clades_def is_terminal_def
      state_defs upward_defs)

lemma ex_down_eval:
  "tree ex_down = ex_tree"
  "date2dist ex_down = date2dist ex_dated"
  "one_mutation ex_down = one_mutation ex_dated"
  "map message (logged ex_down) = map message (logged ex_up) @
     [''ClockTree: Propagating root -> leaves...'']"
  "nodes ex_down 0 = nodes ex_up 0"
  "nodes ex_down 5 = (nodes ex_up 5)\<lparr>msg_from_parent := Some (Convolved
     (Multiplied [Some (Convolved (Multiplied [Some (Shifted (Some (Interp 3 (1 / 4))) 3)])
                          (Some (Interp 2 (1 / 4))) None)])
     (Some (Interp 5 (1 / 4))) (Some False))\<rparr>"
  "nodes ex_down 2 = (nodes ex_up 2)\<lparr>msg_from_parent := Some (Convolved
     (Multiplied [Some (Shifted (Some (Interp 5 (1 / 4))) 1)])
     (Some (Interp 2 (1 / 4))) (Some False))\<rparr>"
  "nodes ex_down 3 = (nodes ex_up 3)\<lparr>msg_from_parent := Some (Convolved
     (Multiplied [Some (Convolved (Multiplied [Some (Shifted (Some (Interp 5 (1 / 4))) 1)])
                          (Some (Interp 2 (1 / 4))) (Some False))])
     (Some (Interp 3 (1 / 4))) (Some False))\<rparr>"
  "nodes ex_down 4 = (nodes ex_up 4)\<lparr>msg_from_parent := Some (Convolved
     (Multiplied [Some (Shifted (Some (Interp 3 (1 / 4))) 3),
                  Some (Convolved (Multiplied [Some (Shifted (Some (Interp 5 (1 / 4))) 1)])
                          (Some (Interp 2 (1 / 4))) (Some False))])
     (Some (Interp 4 (1 / 4))) (Some False))\<rparr>"
  by (simp_all add: ex_down_def ex_up_eval ex_dated_eval ex_tree_eval ex_base find_clades_def
      state_defs downward_defs)

lemma ex_final_run: "set_final_dates ex_lib ex_down = Inr ex_final"
proof -
  have "case set_final_dates ex_lib ex_down of Inl e \<Rightarrow> False | Inr s \<Rightarrow> True"
    by (simp add: ex_down_eval ex_up_eval ex_dated_eval ex_tree_eval ex_base find_clades_def
        state_defs final_defs)
  then show ?thesis
    unfolding ex_final_def finished_def by (cases "set_final_dates ex_lib ex_down") simp_all
qed

lemma ex_final_eval:
  "tree ex_final = ex_tree"
  "date2dist ex_final = date2dist ex_dated"
  "map message (logged ex_final) = map message (logged ex_down) @
     [''ClockTree: Setting dates and node distributions...'']"
  "time_before_present (nodes ex_final 0) = Some (5 / 4)"
  "time_before_present (nodes ex_final 5) = Some 1"
  "time_before_present (nodes ex_final 2) = Some (13 / 4)"
  "time_before_present (nodes ex_final 3) = Some 3"
  "time_before_present (nodes ex_final 4) = Some 3"
  "bad_branch (nodes ex_final 0) = None" "bad_branch (nodes ex_final 5) = None"
  "bad_branch (nodes ex_final 2) = Some False" "bad_branch (nodes ex_final 3) = Some False"
  "bad_branch (nodes ex_final 4) = Some True"
  "branch_length (nodes ex_final 2) = Some (- 2)"
  by (simp_all add: ex_final_def finished_def ex_down_eval ex_up_eval ex_dated_eval ex_tree_eval
      ex_base find_clades_def state_defs final_defs)

lemma ex_prepared_eval:
  "tree ex_prepared = ex_tree"
  "printed ex_prepared =
     [CHR 0x0A # ''----- Initializing branch length interpolation objects...'' @ [CHR 0x0A]]"
  "numdate_given (nodes ex_prepared 2) = None"
  "numdate_given (nodes ex_prepared 3) = Some 2011" "bad_branch (nodes ex_prepared 3) = Some False"
  "numdate_given (nodes ex_prepared 4) = Some 2016" "bad_branch (nodes ex_prepared 4) = Some True"
  by (simp_all add: ex_prepared_def ex_start_def ex_base ex_tree_def topology_defs state_defs
      init_defs)

lemma ex_dated_run: "init_date_constraints ex_lib False None ex_start = Inr ex_dated"
proof -
  have "case init_date_constraints ex_lib False None ex_start of Inl e \<Rightarrow> False | Inr s \<Rightarrow> True"
    by (simp add: init_date_constraints_def init_date_constraints_prepare_def Let_def
        set_date2dist_def)
  then show ?thesis
    unfolding ex_dated_def finished_def
    by (cases "init_date_constraints ex_lib False None ex_start") simp_all
qed

lemma ex_dated_printed:
  "printed ex_dated =
     [CHR 0x0A # ''----- Initializing branch length interpolation objects...'' @ [CHR 0x0A],
      bad_branch_notice]"
  by (simp add: ex_dated_def finished_def ex_start_def ex_base ex_tree_def topology_defs state_defs
      init_defs bad_branch_notice_def)

lemma ex_converted_run: "convert_dates ex_lib ex_final = Inr ex_converted"
proof -
  have "case convert_dates ex_lib ex_final of Inl e \<Rightarrow> False | Inr s \<Rightarrow> True"
    by (simp add: ex_final_eval ex_dated_eval ex_tree_eval ex_base find_clades_def state_defs
        convert_defs)
  then show ?thesis
    unfolding ex_converted_def finished_def by (cases "convert_dates ex_lib ex_final") simp_all
qed

lemma ex_converted_eval:
  "time_before_present (nodes ex_converted 0) = Some (5 / 4)"
  "numdate (nodes ex_converted 0) = Some (3959 / 2)"
  "branch_length (nodes ex_converted 2) = Some (- 2)"
  by (simp_all add: ex_converted_def finished_def ex_final_eval ex_dated_eval ex_tree_eval ex_base
      find_clades_def state_defs convert_defs)





subsection \<open>The upward pass\<close>

lemma leaves_root_node_frame:
  "\<forall>n s m. m \<noteq> n \<longrightarrow> nodes (leaves_root_node lib n s) m = nodes s m"
  by (simp add: leaves_root_node_def Let_def nodes_set_node)

lemma leaves_root_node_tree: "\<forall>n s. tree (leaves_root_node lib n s) = tree s"
  by (simp add: leaves_root_node_def Let_def)

lemma collect_msgs_cong:
  "(\<And>c. c \<in> set cs \<Longrightarrow> ns c = ns' c) \<Longrightarrow> collect_msgs lib ns cs = collect_msgs lib ns' cs"
  unfolding collect_msgs_def
  by (rule arg_cong [where f = concat], rule map_cong) (simp_all split: option.splits)

lemma leaves_root_node_at:
  "\<not> is_terminal (tree s) n \<Longrightarrow>
   nodes (leaves_root_node lib n s) n =
     (let msgs = collect_msgs lib (nodes s) (clades_of (tree s) n) in
      (nodes s n)\<lparr>msgs_from_leaves := msgs,
                  msg_to_parent := (if msgs = [] then msg_to_parent (nodes s n)
                                    else Some (multiply lib (map (\<lambda>kv. Some (snd kv)) msgs)))\<rparr>)"
  by (cases "collect_msgs lib (nodes s) (clades_of (tree s) n)")
     (simp_all add: leaves_root_node_def Let_def nodes_set_node)

lemma upward_node:
  assumes d: "distinct_nodes (tree s)" and i: "\<not> is_terminal (tree s) n"
    and s'_def: "s' = ml_t_leaves_root lib s"
  shows "nodes s' n =
     (let msgs = collect_msgs lib (nodes s') (clades_of (tree s) n) in
      (nodes s n)\<lparr>msgs_from_leaves := msgs,
                  msg_to_parent := (if msgs = [] then msg_to_parent (nodes s n)
                                    else Some (multiply lib (map (\<lambda>kv. Some (snd kv)) msgs)))\<rparr>)"
proof -
  let ?t = "tree s"
  let ?f = "leaves_root_node lib"
  define s0 where "s0 = logger ''ClockTree: Propagating leaves -> root...'' [] 2 False
         (logger ''ClockTree: Maximum likelihood tree optimization with temporal constraints:'' [] 1 False s)"
  have s0: "nodes s0 = nodes s" "tree s0 = ?t" by (simp_all add: s0_def)
  have "n \<in> set (postorder ?t)" using internal_in_tree [OF i] set_postorder by simp
  then obtain pre post where sp: "postorder ?t = pre @ n # post" by (meson split_list)
  have dp: "distinct (pre @ n # post)" using d sp distinct_postorder [of ?t]
    by (simp add: distinct_nodes_def)
  have s': "s' = fold ?f (pre @ n # post) s0"
    by (simp add: s'_def ml_t_leaves_root_def find_clades_def sp s0_def)
  define sp where "sp = fold ?f pre s0"
  have tsp: "tree sp = ?t" by (simp add: sp_def fold_tree [OF leaves_root_node_tree] s0)
  have a: "nodes s' n = nodes (?f n sp) n"
    unfolding s' sp_def by (rule fold_at(1) [OF leaves_root_node_frame dp])
  have b: "nodes sp n = nodes s n"
    using fold_at(2) [OF leaves_root_node_frame dp, of lib s0] by (simp add: sp_def s0)
  have c: "nodes sp c = nodes s' c" if "c \<in> set (clades_of ?t n)" for c
  proof -
    have "c \<in> set pre" using child_before_parent [OF _ that sp] d by (simp add: distinct_nodes_def)
    then show ?thesis unfolding s' sp_def by (rule fold_at(3) [OF leaves_root_node_frame dp])
  qed
  have cm: "collect_msgs lib (nodes sp) (clades_of ?t n) = collect_msgs lib (nodes s') (clades_of ?t n)"
    by (rule collect_msgs_cong) (rule c)
  show ?thesis
    using i by (simp add: a leaves_root_node_at tsp b cm cong: if_cong)
qed

text \<open>
  C3. After the upward pass, every internal node \<open>n\<close> holds in \<open>msgs_from_leaves\<close> one entry
  for each child whose \<open>msg_to_parent\<close> is not \<open>None\<close>, keyed by the child: \<open>shifted_x\<close> of
  the child's interpolator by the peak position when the child's message is a delta,
  and \<open>convolve\<close> of the child's message with the child's interpolator otherwise. When no
  child contributed, \<open>msg_to_parent\<close> of \<open>n\<close> is what it was before the pass; otherwise it
  is \<open>multiply\<close> of the stored messages.
\<close>

theorem upward_pass_internal_node:
  assumes "distinct_nodes (tree s)" and "\<not> is_terminal (tree s) n"
    and "s' = ml_t_leaves_root lib s"
    and "msgs = concat (map (\<lambda>c. case msg_to_parent (nodes s' c) of
                   None \<Rightarrow> []
                 | Some m \<Rightarrow>
                     [(c, if is_delta lib m
                          then shifted_x lib (branch_length_interpolator (nodes s' c)) (peak_pos lib m)
                          else convolve lib m (branch_length_interpolator (nodes s' c)) None)])
               (clades_of (tree s) n))"
  shows "msgs_from_leaves (nodes s' n) = msgs \<and>
         (msgs = [] \<longrightarrow> msg_to_parent (nodes s' n) = msg_to_parent (nodes s n)) \<and>
         (msgs \<noteq> [] \<longrightarrow>
            msg_to_parent (nodes s' n) = Some (multiply lib (map (\<lambda>kv. Some (snd kv)) msgs)))"
proof -
  have "msgs = collect_msgs lib (nodes s') (clades_of (tree s) n)"
    by (simp add: assms(4) collect_msgs_def send_message_def cong: option.case_cong)
  then show ?thesis
    using upward_node [OF assms(1,2,3)] by (simp add: Let_def)
qed

theorem upward_pass_internal_node_witness:
  "distinct_nodes (tree ex_dated) \<and> \<not> is_terminal (tree ex_dated) 0 \<and>
   map (\<lambda>c. msg_to_parent (nodes ex_up c)) (clades_of (tree ex_dated) 0) =
     [Some (Delta 1 1), Some (Multiplied [Some (Shifted (Some (Interp 3 (1 / 4))) 3)])] \<and>
   msgs_from_leaves (nodes ex_up 0) =
     [(5, Shifted (Some (Interp 5 (1 / 4))) 1),
      (2, Convolved (Multiplied [Some (Shifted (Some (Interp 3 (1 / 4))) 3)])
            (Some (Interp 2 (1 / 4))) None)] \<and>
   msg_to_parent (nodes ex_up 0) =
     Some (Multiplied
       [Some (Shifted (Some (Interp 5 (1 / 4))) 1),
        Some (Convolved (Multiplied [Some (Shifted (Some (Interp 3 (1 / 4))) 3)])
                (Some (Interp 2 (1 / 4))) None)])"
proof -
  have t: "distinct_nodes (tree ex_dated)" "\<not> is_terminal (tree ex_dated) 0"
    by (simp_all add: ex_dated_eval ex_tree_eval is_terminal_def)
  show ?thesis
    using upward_pass_internal_node [OF t ex_up_def refl]
    by (simp add: ex_up_eval ex_dated_eval ex_tree_eval is_terminal_def ex_base)
qed

subsection \<open>The downward pass\<close>

lemma root_leaves_node_frame:
  "\<forall>n s m. m \<noteq> n \<longrightarrow> nodes (root_leaves_node lib n s) m = nodes s m"
  by (simp add: root_leaves_node_def Let_def nodes_set_node split: option.splits)

lemma root_leaves_node_tree: "\<forall>n s. tree (root_leaves_node lib n s) = tree s"
  by (simp add: root_leaves_node_def Let_def split: option.splits)

lemma root_leaves_node_at:
  "up (tree s) n = Some p \<Longrightarrow>
   nodes (root_leaves_node lib n s) n =
     (nodes s n)\<lparr>msg_from_parent :=
        Some (convolve lib (multiply lib (map Some (complementary_msgs (nodes s p) n)))
                (branch_length_interpolator (nodes s n)) (Some False))\<rparr>"
  by (simp add: root_leaves_node_def Let_def nodes_set_node)

lemma downward_node:
  assumes d: "distinct_nodes (tree s)" and u: "up (tree s) n = Some p"
    and s'_def: "s' = ml_t_root_leaves lib s"
  shows "nodes s' n =
     (nodes s n)\<lparr>msg_from_parent :=
        Some (convolve lib (multiply lib (map Some (complementary_msgs (nodes s' p) n)))
                (branch_length_interpolator (nodes s n)) (Some False))\<rparr>"
proof -
  let ?t = "tree s"
  let ?f = "root_leaves_node lib"
  define s0 where "s0 = logger ''ClockTree: Propagating root -> leaves...'' [] 2 False s"
  have s0: "nodes s0 = nodes s" "tree s0 = ?t" by (simp_all add: s0_def)
  have "n \<in> set (preorder ?t)" using edge_nodes [OF up_edge [OF u]] by simp
  then obtain pre post where sp: "preorder ?t = pre @ n # post" by (meson split_list)
  have dp: "distinct (pre @ n # post)" using d sp by (simp add: distinct_nodes_def)
  have s': "s' = fold ?f (pre @ n # post) s0"
    by (simp add: s'_def ml_t_root_leaves_def find_clades_def sp s0_def)
  define sp where "sp = fold ?f pre s0"
  have tsp: "tree sp = ?t" by (simp add: sp_def fold_tree [OF root_leaves_node_tree] s0)
  have a: "nodes s' n = nodes (?f n sp) n"
    unfolding s' sp_def by (rule fold_at(1) [OF root_leaves_node_frame dp])
  have b: "nodes sp n = nodes s n"
    using fold_at(2) [OF root_leaves_node_frame dp, of lib s0] by (simp add: sp_def s0)
  have "p \<in> set pre" using parent_before_child [OF _ u sp] d by (simp add: distinct_nodes_def)
  then have c: "nodes sp p = nodes s' p"
    unfolding s' sp_def by (rule fold_at(3) [OF root_leaves_node_frame dp])
  have "up (tree sp) n = Some p" using u tsp by simp
  then show ?thesis
    using root_leaves_node_at [of sp n p lib] by (simp add: a b c)
qed

text \<open>
  C1, as the code has it. After the downward pass, the message from the parent of every
  node \<open>n\<close> with parent \<open>p\<close> is \<open>convolve\<close>, called with \<open>inverse_time=False\<close>, of the
  product of the complementary messages (the entries of \<open>p.msgs_from_leaves\<close> under the keys
  other than \<open>n\<close>, and \<open>p.msg_from_parent\<close> when it is not \<open>None\<close>) with the interpolator
  of \<open>n\<close>.
\<close>

theorem downward_pass_message:
  assumes "distinct_nodes (tree s)" and "up (tree s) n = Some p"
    and "s' = ml_t_root_leaves lib s"
  shows "msg_from_parent (nodes s' n) =
           Some (convolve lib
                   (multiply lib (map Some
                      (map snd (filter (\<lambda>kv. fst kv \<noteq> n) (msgs_from_leaves (nodes s' p))) @
                       (case msg_from_parent (nodes s' p) of None \<Rightarrow> [] | Some m \<Rightarrow> [m]))))
                   (branch_length_interpolator (nodes s' n)) (Some False))"
  using downward_node [OF assms] by (simp add: complementary_msgs_def)

theorem downward_pass_message_witness:
  "distinct_nodes (tree ex_up) \<and> up (tree ex_up) 3 = Some 2 \<and>
   msgs_from_leaves (nodes ex_down 2) = [(3, Shifted (Some (Interp 3 (1 / 4))) 3)] \<and>
   msg_from_parent (nodes ex_down 2) =
     Some (Convolved (Multiplied [Some (Shifted (Some (Interp 5 (1 / 4))) 1)])
             (Some (Interp 2 (1 / 4))) (Some False)) \<and>
   msg_from_parent (nodes ex_down 3) =
     Some (Convolved
       (Multiplied
         [Some (Convolved (Multiplied [Some (Shifted (Some (Interp 5 (1 / 4))) 1)])
                  (Some (Interp 2 (1 / 4))) (Some False))])
       (Some (Interp 3 (1 / 4))) (Some False))"
proof -
  have t: "distinct_nodes (tree ex_up)" "up (tree ex_up) 3 = Some 2"
    by (simp_all add: ex_up_eval ex_tree_eval)
  have c: "msgs_from_leaves (nodes ex_down 2) = [(3, Shifted (Some (Interp 3 (1 / 4))) 3)]"
    "msg_from_parent (nodes ex_down 2) =
       Some (Convolved (Multiplied [Some (Shifted (Some (Interp 5 (1 / 4))) 1)])
               (Some (Interp 2 (1 / 4))) (Some False))"
    "branch_length_interpolator (nodes ex_down 3) = Some (Interp 3 (1 / 4))"
    by (simp_all add: ex_down_eval ex_up_eval ex_dated_eval ex_base)
  show ?thesis
    using downward_pass_message [OF t ex_down_def]
    by (simp add: c ex_up_eval ex_tree_eval ex_lib_def)
qed

text \<open>
  C1, as stated, fails: at the node 3 of the example, whose parent is the node 2, the
  message from the parent is not the convolution called with \<open>inverse_time=True\<close>.
\<close>

theorem downward_pass_inverse_time_counterexample:
  "msg_from_parent (nodes ex_down 3) \<noteq>
     Some (convolve ex_lib
             (multiply ex_lib (map Some (complementary_msgs (nodes ex_down 2) 3)))
             (branch_length_interpolator (nodes ex_down 3)) (Some True))"
  by (simp add: ex_down_eval ex_up_eval ex_dated_eval ex_base complementary_msgs_def)

subsection \<open>Finalization\<close>

lemma fold_err_append:
  "fold_err f (xs @ ys) s = (case fold_err f xs s of Inl e \<Rightarrow> Inl e | Inr s1 \<Rightarrow> fold_err f ys s1)"
  by (induction xs arbitrary: s) (auto split: sum.splits)

lemma fold_err_frame:
  assumes "\<forall>n s s1 m. f n s = Inr s1 \<longrightarrow> m \<noteq> n \<longrightarrow> nodes s1 m = nodes s m"
  shows "fold_err f xs s = Inr s' \<Longrightarrow> m \<notin> set xs \<Longrightarrow> nodes s' m = nodes s m"
proof (induction xs arbitrary: s)
  case Nil
  then show ?case by simp
next
  case (Cons x xs)
  from Cons.prems(1) obtain s1 where s1: "f x s = Inr s1" "fold_err f xs s1 = Inr s'"
    by (auto split: sum.splits)
  have "nodes s' m = nodes s1 m" using Cons.IH [OF s1(2)] Cons.prems(2) by simp
  moreover have "nodes s1 m = nodes s m" using assms s1(1) Cons.prems(2) by auto
  ultimately show ?case by simp
qed

lemma fold_err_keeps:
  assumes "\<forall>n s s1. f n s = Inr s1 \<longrightarrow> g s1 = g s"
  shows "fold_err f xs s = Inr s' \<Longrightarrow> g s' = g s"
proof (induction xs arbitrary: s)
  case Nil
  then show ?case by simp
next
  case (Cons x xs)
  from Cons.prems(1) obtain s1 where s1: "f x s = Inr s1" "fold_err f xs s1 = Inr s'"
    by (auto split: sum.splits)
  show ?case using Cons.IH [OF s1(2)] assms s1(1) by auto
qed

lemma fold_err_at:
  assumes frame: "\<forall>n s s1 m. f n s = Inr s1 \<longrightarrow> m \<noteq> n \<longrightarrow> nodes s1 m = nodes s m"
    and dist: "distinct (pre @ n # post)"
    and run: "fold_err f (pre @ n # post) s = Inr s'"
  shows "\<exists>sp sn. fold_err f pre s = Inr sp \<and> f n sp = Inr sn \<and> nodes s' n = nodes sn n \<and>
           nodes sp n = nodes s n \<and> (\<forall>m\<in>set pre. nodes sp m = nodes s' m)"
proof -
  from dist have n: "n \<notin> set pre" "n \<notin> set post" by auto
  from run obtain sp where sp: "fold_err f pre s = Inr sp" "fold_err f (n # post) sp = Inr s'"
    by (auto simp: fold_err_append split: sum.splits)
  from sp(2) obtain sn where sn: "f n sp = Inr sn" "fold_err f post sn = Inr s'"
    by (auto split: sum.splits)
  have a: "nodes s' n = nodes sn n" using fold_err_frame [OF frame sn(2) n(2)] .
  have b: "nodes sp n = nodes s n" using fold_err_frame [OF frame sp(1) n(1)] .
  have c: "nodes sp m = nodes s' m" if "m \<in> set pre" for m
  proof -
    from that dist have "m \<notin> set (n # post)" by auto
    then show ?thesis using fold_err_frame [OF frame sp(2)] by simp
  qed
  show ?thesis using sp(1) sn(1) a b c by blast
qed

lemma set_final_dates_node_frame:
  "\<forall>n s s1 m. set_final_dates_node lib n s = Inr s1 \<longrightarrow> m \<noteq> n \<longrightarrow> nodes s1 m = nodes s m"
  by (auto simp: set_final_dates_node_def Let_def nodes_set_node split: option.splits sum.splits)

lemma set_final_dates_node_tree:
  "\<forall>n s s1. set_final_dates_node lib n s = Inr s1 \<longrightarrow> tree s1 = tree s"
  by (auto simp: set_final_dates_node_def Let_def split: option.splits sum.splits)

lemma set_final_dates_node_logged:
  "\<forall>n s s1. set_final_dates_node lib n s = Inr s1 \<longrightarrow> logged s1 = logged s"
  by (auto simp: set_final_dates_node_def Let_def set_node_def split: option.splits sum.splits)

lemma set_final_dates_node_one_mutation:
  "\<forall>n s s1. set_final_dates_node lib n s = Inr s1 \<longrightarrow> one_mutation s1 = one_mutation s"
  by (auto simp: set_final_dates_node_def Let_def set_node_def split: option.splits sum.splits)

lemma set_final_dates_node_below:
  assumes "up (tree s) n = Some p" and "set_final_dates_node lib n s = Inr s1"
  shows "\<exists>t_up. time_before_present (nodes s p) = Some t_up \<and>
     nodes s1 n = (nodes s n)\<lparr>
       marginal_lh := Some (multiply lib [msg_from_parent (nodes s n), msg_to_parent (nodes s n)]),
       joint_lh := Some (joint_of lib (nodes s n) t_up),
       time_before_present := Some (peak_pos lib (joint_of lib (nodes s n) t_up)),
       branch_length := Some (t_up - peak_pos lib (joint_of lib (nodes s n) t_up)),
       clock_length := Some (t_up - peak_pos lib (joint_of lib (nodes s n) t_up))\<rparr>"
  using assms
  by (auto simp: set_final_dates_node_def Let_def nodes_set_node collapse_func_def
      split: option.splits sum.splits)

lemma set_final_dates_node_root:
  assumes "up (tree s) n = None" and "set_final_dates_node lib n s = Inr s1"
  shows "\<exists>m. msg_to_parent (nodes s n) = Some m \<and>
     nodes s1 n = (nodes s n)\<lparr>
       marginal_lh := Some m, joint_lh := Some m,
       time_before_present := Some (peak_pos lib m),
       branch_length := Some (one_mutation s),
       clock_length := Some (one_mutation s)\<rparr>"
  using assms
  by (auto simp: set_final_dates_node_def Let_def nodes_set_node collapse_func_def
      split: option.splits sum.splits)

lemma final_logged:
  assumes "set_final_dates lib s = Inr s'"
  shows "logged s' = logged s @
    [\<lparr>message = ''ClockTree: Setting dates and node distributions...'', args = [],
      level = 2, warn = False\<rparr>]"
  using fold_err_keeps [where g = logged, OF set_final_dates_node_logged] assms
  unfolding set_final_dates_def by (fastforce simp: logger_def)

lemma final_below:
  assumes d: "distinct_nodes (tree s)" and u: "up (tree s) n = Some p"
    and run: "set_final_dates lib s = Inr s'"
  shows "\<exists>t_up. time_before_present (nodes s' p) = Some t_up \<and>
     nodes s' n = (nodes s n)\<lparr>
       marginal_lh := Some (multiply lib [msg_from_parent (nodes s n), msg_to_parent (nodes s n)]),
       joint_lh := Some (joint_of lib (nodes s n) t_up),
       time_before_present := Some (peak_pos lib (joint_of lib (nodes s n) t_up)),
       branch_length := Some (t_up - peak_pos lib (joint_of lib (nodes s n) t_up)),
       clock_length := Some (t_up - peak_pos lib (joint_of lib (nodes s n) t_up))\<rparr>"
proof -
  let ?t = "tree s"
  let ?f = "set_final_dates_node lib"
  define s0 where "s0 = logger ''ClockTree: Setting dates and node distributions...'' [] 2 False s"
  have s0: "nodes s0 = nodes s" "tree s0 = ?t" by (simp_all add: s0_def)
  have "n \<in> set (preorder ?t)" using edge_nodes [OF up_edge [OF u]] by simp
  then obtain pre post where sp: "preorder ?t = pre @ n # post" by (meson split_list)
  have dp: "distinct (pre @ n # post)" using d sp by (simp add: distinct_nodes_def)
  have r: "fold_err ?f (pre @ n # post) s0 = Inr s'"
    using run by (simp add: set_final_dates_def find_clades_def sp s0_def)
  from fold_err_at [OF set_final_dates_node_frame dp r]
  obtain sp sn where h: "fold_err ?f pre s0 = Inr sp" "?f n sp = Inr sn" "nodes s' n = nodes sn n"
    "nodes sp n = nodes s0 n" "\<forall>m\<in>set pre. nodes sp m = nodes s' m"
    by blast
  have tsp: "tree sp = ?t"
    using fold_err_keeps [where g = tree, OF set_final_dates_node_tree h(1)] s0 by simp
  have "p \<in> set pre" using parent_before_child [OF _ u sp] d by (simp add: distinct_nodes_def)
  then have c: "nodes sp p = nodes s' p" using h(5) by simp
  have "up (tree sp) n = Some p" using u tsp by simp
  from set_final_dates_node_below [OF this h(2)]
  show ?thesis by (simp add: h(3,4) c s0)
qed

lemma final_root:
  assumes d: "distinct_nodes (tree s)" and i: "n \<in> set (preorder (tree s))"
    and u: "up (tree s) n = None" and run: "set_final_dates lib s = Inr s'"
  shows "\<exists>m. msg_to_parent (nodes s n) = Some m \<and>
     nodes s' n = (nodes s n)\<lparr>
       marginal_lh := Some m, joint_lh := Some m,
       time_before_present := Some (peak_pos lib m),
       branch_length := Some (one_mutation s),
       clock_length := Some (one_mutation s)\<rparr>"
proof -
  let ?t = "tree s"
  let ?f = "set_final_dates_node lib"
  define s0 where "s0 = logger ''ClockTree: Setting dates and node distributions...'' [] 2 False s"
  have s0: "nodes s0 = nodes s" "tree s0 = ?t" "one_mutation s0 = one_mutation s"
    by (simp_all add: s0_def logger_def)
  from i obtain pre post where sp: "preorder ?t = pre @ n # post" by (meson split_list)
  have dp: "distinct (pre @ n # post)" using d sp by (simp add: distinct_nodes_def)
  have r: "fold_err ?f (pre @ n # post) s0 = Inr s'"
    using run by (simp add: set_final_dates_def find_clades_def sp s0_def)
  from fold_err_at [OF set_final_dates_node_frame dp r]
  obtain sp sn where h: "fold_err ?f pre s0 = Inr sp" "?f n sp = Inr sn" "nodes s' n = nodes sn n"
    "nodes sp n = nodes s0 n" "\<forall>m\<in>set pre. nodes sp m = nodes s' m"
    by blast
  have tsp: "tree sp = ?t"
    using fold_err_keeps [where g = tree, OF set_final_dates_node_tree h(1)] s0 by simp
  have om: "one_mutation sp = one_mutation s"
    using fold_err_keeps [where g = one_mutation, OF set_final_dates_node_one_mutation h(1)] s0
    by simp
  have "up (tree sp) n = None" using u tsp by simp
  from set_final_dates_node_root [OF this h(2)]
  show ?thesis by (simp add: h(3,4) s0 om)
qed

text \<open>
  C4. After finalization, the joint posterior of every node \<open>n\<close> with parent \<open>p\<close> is the
  interpolator of \<open>n\<close> shifted by minus \<open>p.time_before_present\<close> and rescaled by -1,
  multiplied with \<open>n.msg_to_parent\<close> when that is not \<open>None\<close> and taken alone otherwise;
  \<open>n.time_before_present\<close> is the peak position of this joint posterior.
\<close>

theorem finalization_joint_posterior:
  assumes "distinct_nodes (tree s)" and "up (tree s) n = Some p"
    and "set_final_dates lib s = Inr s'"
  shows "\<exists>t_up res joint.
     time_before_present (nodes s' p) = Some t_up \<and>
     res = x_rescale lib (shifted_x lib (branch_length_interpolator (nodes s' n)) (- t_up)) (- 1) \<and>
     joint = (case msg_to_parent (nodes s' n) of
                Some m \<Rightarrow> multiply lib [Some m, Some res]
              | None \<Rightarrow> res) \<and>
     joint_lh (nodes s' n) = Some joint \<and>
     time_before_present (nodes s' n) = Some (peak_pos lib joint)"
proof -
  from final_below [OF assms] obtain t_up where
    "time_before_present (nodes s' p) = Some t_up"
    "nodes s' n = (nodes s n)\<lparr>
       marginal_lh := Some (multiply lib [msg_from_parent (nodes s n), msg_to_parent (nodes s n)]),
       joint_lh := Some (joint_of lib (nodes s n) t_up),
       time_before_present := Some (peak_pos lib (joint_of lib (nodes s n) t_up)),
       branch_length := Some (t_up - peak_pos lib (joint_of lib (nodes s n) t_up)),
       clock_length := Some (t_up - peak_pos lib (joint_of lib (nodes s n) t_up))\<rparr>"
    by blast
  then show ?thesis
    by (simp add: joint_of_def shifted_rescaled_def split: option.splits)
qed

theorem finalization_joint_posterior_witness:
  "distinct_nodes (tree ex_down) \<and> up (tree ex_down) 3 = Some 2 \<and>
   set_final_dates ex_lib ex_down = Inr ex_final \<and>
   time_before_present (nodes ex_final 2) = Some (13 / 4) \<and>
   joint_lh (nodes ex_final 3) =
     Some (Multiplied [Some (Delta 3 1),
             Some (Rescaled (Shifted (Some (Interp 3 (1 / 4))) (- (13 / 4))) (- 1))]) \<and>
   time_before_present (nodes ex_final 3) = Some 3"
proof -
  have t: "distinct_nodes (tree ex_down)" "up (tree ex_down) 3 = Some 2"
    by (simp_all add: ex_down_eval ex_tree_eval)
  have c: "msg_to_parent (nodes ex_final 3) = Some (Delta 3 1)"
    "branch_length_interpolator (nodes ex_final 3) = Some (Interp 3 (1 / 4))"
    by (simp_all add: ex_final_def finished_def ex_down_eval ex_up_eval ex_dated_eval ex_tree_eval
        ex_base find_clades_def state_defs final_defs)
  show ?thesis
    using finalization_joint_posterior [OF t ex_final_run]
    by (auto simp: ex_final_run ex_final_eval ex_down_eval ex_tree_eval c ex_lib_eval)
qed

text \<open>
  C9. For every node \<open>n\<close> with a parent whose \<open>msg_to_parent\<close> is \<open>None\<close>, finalization
  sets \<open>marginal_lh\<close> to \<open>multiply\<close> of the pair of \<open>msg_from_parent\<close> and \<open>None\<close>: the
  \<open>None\<close> is passed on. The joint posterior of the same node is the transformed
  interpolator alone: there the code tests \<open>msg_to_parent\<close> first.
\<close>

theorem finalization_marginal_unguarded:
  assumes "distinct_nodes (tree s)" and "up (tree s) n = Some p"
    and "msg_to_parent (nodes s n) = None"
    and "set_final_dates lib s = Inr s'"
  shows "marginal_lh (nodes s' n) = Some (multiply lib [msg_from_parent (nodes s n), None]) \<and>
     (\<exists>t_up. time_before_present (nodes s' p) = Some t_up \<and>
        joint_lh (nodes s' n) =
          Some (x_rescale lib (shifted_x lib (branch_length_interpolator (nodes s n)) (- t_up)) (- 1)))"
proof -
  from final_below [OF assms(1,2,4)] obtain t_up where
    "time_before_present (nodes s' p) = Some t_up"
    "nodes s' n = (nodes s n)\<lparr>
       marginal_lh := Some (multiply lib [msg_from_parent (nodes s n), msg_to_parent (nodes s n)]),
       joint_lh := Some (joint_of lib (nodes s n) t_up),
       time_before_present := Some (peak_pos lib (joint_of lib (nodes s n) t_up)),
       branch_length := Some (t_up - peak_pos lib (joint_of lib (nodes s n) t_up)),
       clock_length := Some (t_up - peak_pos lib (joint_of lib (nodes s n) t_up))\<rparr>"
    by blast
  then show ?thesis
    using assms(3) by (simp add: joint_of_def shifted_rescaled_def)
qed

theorem finalization_marginal_unguarded_witness:
  "distinct_nodes (tree ex_down) \<and> up (tree ex_down) 4 = Some 2 \<and>
   msg_to_parent (nodes ex_down 4) = None \<and>
   set_final_dates ex_lib ex_down = Inr ex_final \<and>
   marginal_lh (nodes ex_final 4) =
     Some (Multiplied
       [Some (Convolved
          (Multiplied
            [Some (Shifted (Some (Interp 3 (1 / 4))) 3),
             Some (Convolved (Multiplied [Some (Shifted (Some (Interp 5 (1 / 4))) 1)])
                     (Some (Interp 2 (1 / 4))) (Some False))])
          (Some (Interp 4 (1 / 4))) (Some False)),
        None]) \<and>
   joint_lh (nodes ex_final 4) =
     Some (Rescaled (Shifted (Some (Interp 4 (1 / 4))) (- (13 / 4))) (- 1))"
proof -
  have t: "distinct_nodes (tree ex_down)" "up (tree ex_down) 4 = Some 2"
    "msg_to_parent (nodes ex_down 4) = None"
    by (simp_all add: ex_down_eval ex_up_eval ex_dated_eval ex_tree_eval ex_base)
  show ?thesis
    using finalization_marginal_unguarded [OF t ex_final_run]
    by (auto simp: ex_final_run ex_final_eval ex_down_eval ex_up_eval ex_dated_eval ex_tree_eval
        ex_base)
qed

text \<open>
  C6, as the code has it. After finalization, the \<open>branch_length\<close> of every node \<open>n\<close> with
  parent \<open>p\<close> is \<open>p.time_before_present - n.time_before_present\<close>. Finalization logs its
  progress message and nothing else, whatever the sign of the branch lengths.
\<close>

theorem finalization_branch_length:
  assumes "distinct_nodes (tree s)" and "up (tree s) n = Some p"
    and "set_final_dates lib s = Inr s'"
  shows "\<exists>t_up t. time_before_present (nodes s' p) = Some t_up \<and>
     time_before_present (nodes s' n) = Some t \<and>
     branch_length (nodes s' n) = Some (t_up - t) \<and>
     logged s' = logged s @
       [\<lparr>message = ''ClockTree: Setting dates and node distributions...'', args = [],
         level = 2, warn = False\<rparr>]"
proof -
  from final_below [OF assms] obtain t_up where
    "time_before_present (nodes s' p) = Some t_up"
    "nodes s' n = (nodes s n)\<lparr>
       marginal_lh := Some (multiply lib [msg_from_parent (nodes s n), msg_to_parent (nodes s n)]),
       joint_lh := Some (joint_of lib (nodes s n) t_up),
       time_before_present := Some (peak_pos lib (joint_of lib (nodes s n) t_up)),
       branch_length := Some (t_up - peak_pos lib (joint_of lib (nodes s n) t_up)),
       clock_length := Some (t_up - peak_pos lib (joint_of lib (nodes s n) t_up))\<rparr>"
    by blast
  then show ?thesis
    using final_logged [OF assms(3)] by simp
qed

theorem finalization_branch_length_witness:
  "distinct_nodes (tree ex_down) \<and> up (tree ex_down) 2 = Some 0 \<and>
   set_final_dates ex_lib ex_down = Inr ex_final \<and>
   time_before_present (nodes ex_final 0) = Some (5 / 4) \<and>
   time_before_present (nodes ex_final 2) = Some (13 / 4) \<and>
   branch_length (nodes ex_final 2) = Some (- 2) \<and>
   logged ex_final = logged ex_down @
       [\<lparr>message = ''ClockTree: Setting dates and node distributions...'', args = [],
         level = 2, warn = False\<rparr>]"
proof -
  have t: "distinct_nodes (tree ex_down)" "up (tree ex_down) 2 = Some 0"
    by (simp_all add: ex_down_eval ex_tree_eval)
  show ?thesis
    using finalization_branch_length [OF t ex_final_run]
    by (auto simp: ex_final_run ex_final_eval ex_down_eval ex_tree_eval)
qed

text \<open>
  C6, as stated, fails. In the example the node 2, whose \<open>bad_branch\<close> is \<open>False\<close>, gets the
  branch length -2, and nothing is logged about it: after finalization and calendar
  conversion the log holds the six progress messages of the methods.
\<close>

theorem negative_branch_length_not_logged_counterexample:
  "map_sum id branch_length (node_after (set_final_dates ex_lib ex_down) 2) = Inr (Some (- 2)) \<and>
   map_sum id bad_branch (node_after (set_final_dates ex_lib ex_down) 2) = Inr (Some False) \<and>
   map_sum id (map message) (logged_after (convert_dates ex_lib ex_final)) =
     Inr [''ClockTree.init_date_constraints...'',
          ''TreeTime.date2dist: Setting new date to branchlength conversion. slope=%f, R2=%.4f'',
          ''ClockTree: Maximum likelihood tree optimization with temporal constraints:'',
          ''ClockTree: Propagating leaves -> root...'',
          ''ClockTree: Propagating root -> leaves...'',
          ''ClockTree: Setting dates and node distributions...'']"
  by (simp add: ex_final_run node_after_def logged_after_def ex_final_eval ex_down_eval ex_up_eval
      ex_dated_eval ex_tree_eval ex_base find_clades_def state_defs convert_defs)

subsection \<open>Date constraints\<close>

lemma init_node_frame:
  "\<forall>n s m. m \<noteq> n \<longrightarrow> nodes (init_node lib dc n s) m = nodes s m"
  by (simp add: init_node_def Let_def nodes_set_node split: option.splits)

lemma init_node_at:
  "nodes (init_node lib dc n s) n =
     (case numdate_given (nodes s n) of
        Some d \<Rightarrow>
          if bad_branch (nodes s n) = Some True
          then (nodes s n)\<lparr>numdate_given := None, abs_t := None, msg_to_parent := None\<rparr>
          else (nodes s n)\<lparr>abs_t := Some ((numeric_date lib - d) * \<bar>slope dc\<bar>),
                 msg_to_parent := Some (delta_function lib ((numeric_date lib - d) * \<bar>slope dc\<bar>) 1)\<rparr>
      | None \<Rightarrow> (nodes s n)\<lparr>numdate_given := None, abs_t := None, msg_to_parent := None\<rparr>)"
  by (simp add: init_node_def Let_def nodes_set_node split: option.splits)

lemma init_node_printed:
  "printed (init_node lib dc n s) = printed s @
     (if numdate_given (nodes s n) \<noteq> None \<and> bad_branch (nodes s n) = Some True
      then [bad_branch_notice] else [])"
  by (auto simp: init_node_def Let_def set_node_def print_def bad_branch_notice_def
      split: option.splits)

lemma init_node_date2dist: "date2dist (init_node lib dc n s) = date2dist s"
  by (simp add: init_node_def Let_def set_node_def print_def split: option.splits)

lemma init_loop_date2dist: "date2dist (fold (init_node lib dc) xs s) = date2dist s"
  by (induction xs arbitrary: s) (simp_all add: init_node_date2dist)

lemma init_loop_printed:
  "distinct xs \<Longrightarrow>
   printed (fold (init_node lib dc) xs s) = printed s @
     map (\<lambda>m. bad_branch_notice)
       (filter (\<lambda>m. numdate_given (nodes s m) \<noteq> None \<and> bad_branch (nodes s m) = Some True) xs)"
proof (induction xs arbitrary: s)
  case Nil
  then show ?case by simp
next
  case (Cons x xs)
  let ?s1 = "init_node lib dc x s"
  have same: "nodes ?s1 m = nodes s m" if "m \<in> set xs" for m
  proof -
    have "m \<noteq> x" using that Cons.prems by auto
    then show ?thesis using init_node_frame [of lib dc] by simp
  qed
  have "filter (\<lambda>m. numdate_given (nodes ?s1 m) \<noteq> None \<and> bad_branch (nodes ?s1 m) = Some True) xs
      = filter (\<lambda>m. numdate_given (nodes s m) \<noteq> None \<and> bad_branch (nodes s m) = Some True) xs"
    by (rule filter_cong) (simp_all add: same)
  then show ?case
    using Cons.IH [of ?s1] Cons.prems by (simp add: init_node_printed)
qed

lemma init_loop_node:
  assumes "distinct xs" and "n \<in> set xs"
  shows "nodes (fold (init_node lib dc) xs s) n = nodes (init_node lib dc n s) n"
proof -
  from assms(2) obtain pre post where sp: "xs = pre @ n # post" by (meson split_list)
  have dp: "distinct (pre @ n # post)" using assms(1) sp by simp
  have "nodes (fold (init_node lib dc) xs s) n = nodes (init_node lib dc n (fold (init_node lib dc) pre s)) n"
    unfolding sp by (rule fold_at(1) [OF init_node_frame dp])
  moreover have "nodes (fold (init_node lib dc) pre s) n = nodes s n"
    by (rule fold_at(2) [OF init_node_frame dp])
  ultimately show ?thesis by (simp add: init_node_at split: option.splits)
qed

lemma prepare_date2dist:
  "\<exists>dc. date2dist (init_date_constraints_prepare lib a k s) = Some dc"
  by (simp add: init_date_constraints_prepare_def Let_def set_date2dist_def)

lemma init_returns:
  obtains dc where "date2dist (init_date_constraints_prepare lib a k s) = Some dc"
    and "init_date_constraints lib a k s =
      Inr (fold (init_node lib dc)
        (preorder (tree (init_date_constraints_prepare lib a k s)))
        (init_date_constraints_prepare lib a k s))"
proof -
  from prepare_date2dist [of lib a k s] obtain dc
    where "date2dist (init_date_constraints_prepare lib a k s) = Some dc" by blast
  then show ?thesis
    using that by (simp add: init_date_constraints_def Let_def find_clades_def)
qed

text \<open>
  C5. \<open>init_date_constraints\<close> returns, and for every node of the tree, with the attributes
  it has when the loop over the nodes starts: a node whose \<open>numdate_given\<close> is set and
  that is not marked bad gets \<open>abs_t = (today - numdate_given) * |slope|\<close>, the slope being
  that of the conversion the method has stored, and \<open>msg_to_parent\<close> the delta
  distribution at \<open>abs_t\<close> with weight 1; every other node gets \<open>abs_t\<close> and \<open>msg_to_parent\<close>
  set to \<open>None\<close>.
\<close>

theorem init_date_constraints_dated_nodes:
  assumes "init_date_constraints lib ancestral_inference slope_arg s = Inr s'"
    and "s0 = init_date_constraints_prepare lib ancestral_inference slope_arg s"
    and "distinct_nodes (tree s0)" and "n \<in> set (preorder (tree s0))"
  shows "\<exists>dc. date2dist s' = Some dc \<and>
     (\<forall>d. numdate_given (nodes s0 n) = Some d \<and> bad_branch (nodes s0 n) \<noteq> Some True \<longrightarrow>
        abs_t (nodes s' n) = Some ((numeric_date lib - d) * \<bar>slope dc\<bar>) \<and>
        msg_to_parent (nodes s' n) =
          Some (delta_function lib ((numeric_date lib - d) * \<bar>slope dc\<bar>) 1)) \<and>
     (numdate_given (nodes s0 n) = None \<or> bad_branch (nodes s0 n) = Some True \<longrightarrow>
        abs_t (nodes s' n) = None \<and> msg_to_parent (nodes s' n) = None)"
proof -
  obtain dc where dc: "date2dist s0 = Some dc"
    and r: "init_date_constraints lib ancestral_inference slope_arg s =
      Inr (fold (init_node lib dc) (preorder (tree s0)) s0)"
    using init_returns [of lib ancestral_inference slope_arg s] assms(2) by auto
  have s': "s' = fold (init_node lib dc) (preorder (tree s0)) s0" using r assms(1) by simp
  have d2: "date2dist s' = Some dc" by (simp add: s' init_loop_date2dist dc)
  have nd: "nodes s' n = nodes (init_node lib dc n s0) n"
    unfolding s' using assms(3,4) by (intro init_loop_node) (simp_all add: distinct_nodes_def)
  show ?thesis
    using d2 by (auto simp: nd init_node_at split: option.splits)
qed

theorem init_date_constraints_dated_nodes_witness:
  "init_date_constraints ex_lib False None ex_start = Inr ex_dated \<and>
   distinct_nodes (tree ex_prepared) \<and>
   3 \<in> set (preorder (tree ex_prepared)) \<and> 2 \<in> set (preorder (tree ex_prepared)) \<and>
   numdate_given (nodes ex_prepared 3) = Some 2011 \<and>
   bad_branch (nodes ex_prepared 3) = Some False \<and>
   numdate_given (nodes ex_prepared 2) = None \<and>
   numeric_date ex_lib = 2017 \<and>
   date2dist ex_dated = Some \<lparr>slope = 1 / 2, intercept = 20, r_val = 1\<rparr> \<and>
   abs_t (nodes ex_dated 3) = Some 3 \<and> msg_to_parent (nodes ex_dated 3) = Some (Delta 3 1) \<and>
   abs_t (nodes ex_dated 2) = None \<and> msg_to_parent (nodes ex_dated 2) = None"
proof -
  have t: "distinct_nodes (tree ex_prepared)" "3 \<in> set (preorder (tree ex_prepared))"
    "2 \<in> set (preorder (tree ex_prepared))"
    by (simp_all add: ex_prepared_eval ex_tree_eval)
  show ?thesis
    using init_date_constraints_dated_nodes [OF ex_dated_run ex_prepared_def t(1,2)]
      init_date_constraints_dated_nodes [OF ex_dated_run ex_prepared_def t(1,3)]
    by (auto simp: ex_dated_run ex_prepared_eval ex_tree_eval ex_dated_eval ex_base)
qed

text \<open>
  C8. A node that is dated and marked bad when the loop starts loses \<open>numdate_given\<close>,
  \<open>abs_t\<close> and \<open>msg_to_parent\<close>; the notice is printed once for each such node, and the
  method returns.
\<close>

theorem init_date_constraints_bad_dated_node:
  assumes "s0 = init_date_constraints_prepare lib ancestral_inference slope_arg s"
    and "distinct_nodes (tree s0)" and "n \<in> set (preorder (tree s0))"
    and "numdate_given (nodes s0 n) = Some d" and "bad_branch (nodes s0 n) = Some True"
  shows "\<exists>s'. init_date_constraints lib ancestral_inference slope_arg s = Inr s' \<and>
     numdate_given (nodes s' n) = None \<and> abs_t (nodes s' n) = None \<and>
     msg_to_parent (nodes s' n) = None \<and>
     bad_branch_notice \<in> set (printed s') \<and>
     printed s' = printed s0 @
       map (\<lambda>m. bad_branch_notice)
         (filter (\<lambda>m. numdate_given (nodes s0 m) \<noteq> None \<and> bad_branch (nodes s0 m) = Some True)
            (preorder (tree s0)))"
proof -
  obtain dc where dc: "date2dist s0 = Some dc"
    and r: "init_date_constraints lib ancestral_inference slope_arg s =
      Inr (fold (init_node lib dc) (preorder (tree s0)) s0)"
    using init_returns [of lib ancestral_inference slope_arg s] assms(1) by auto
  let ?s' = "fold (init_node lib dc) (preorder (tree s0)) s0"
  have nd: "nodes ?s' n = nodes (init_node lib dc n s0) n"
    using assms(2,3) by (intro init_loop_node) (simp_all add: distinct_nodes_def)
  have pr: "printed ?s' = printed s0 @
       map (\<lambda>m. bad_branch_notice)
         (filter (\<lambda>m. numdate_given (nodes s0 m) \<noteq> None \<and> bad_branch (nodes s0 m) = Some True)
            (preorder (tree s0)))"
    using assms(2) by (intro init_loop_printed) (simp add: distinct_nodes_def)
  have "n \<in> set (filter (\<lambda>m. numdate_given (nodes s0 m) \<noteq> None \<and> bad_branch (nodes s0 m) = Some True)
            (preorder (tree s0)))"
    using assms(3,4,5) by simp
  then have "bad_branch_notice \<in> set (printed ?s')"
    unfolding pr by force
  then show ?thesis
    using r pr assms(4,5) by (simp add: nd init_node_at)
qed

theorem init_date_constraints_bad_dated_node_witness:
  "distinct_nodes (tree ex_prepared) \<and> 4 \<in> set (preorder (tree ex_prepared)) \<and>
   numdate_given (nodes ex_prepared 4) = Some 2016 \<and>
   bad_branch (nodes ex_prepared 4) = Some True \<and>
   init_date_constraints ex_lib False None ex_start = Inr ex_dated \<and>
   numdate_given (nodes ex_dated 4) = None \<and> abs_t (nodes ex_dated 4) = None \<and>
   msg_to_parent (nodes ex_dated 4) = None \<and>
   printed ex_dated = printed ex_prepared @ [bad_branch_notice]"
proof -
  have t: "distinct_nodes (tree ex_prepared)" "4 \<in> set (preorder (tree ex_prepared))"
    by (simp_all add: ex_prepared_eval ex_tree_eval)
  show ?thesis
    using init_date_constraints_bad_dated_node [OF ex_prepared_def t ex_prepared_eval(6,7)]
    by (auto simp: ex_dated_run ex_prepared_eval ex_tree_eval ex_dated_eval ex_dated_printed ex_base)
qed

subsection \<open>Calendar conversion\<close>

lemma fold_keeps:
  assumes "\<forall>n s. g (f n s) = g s"
  shows "g (fold f xs s) = g s"
  using assms by (induction xs arbitrary: s) auto


lemma convert_dates_node_lengths:
  "\<forall>n s s1. convert_dates_node lib now n s = Inr s1 \<longrightarrow>
     (branch_length (nodes s1 m), clock_length (nodes s1 m)) =
     (branch_length (nodes s m), clock_length (nodes s m))"
  by (auto simp: convert_dates_node_def Let_def nodes_set_node split: option.splits if_splits)






subsection \<open>Branch length and clock length\<close>

lemma leaves_root_node_lengths:
  "\<forall>n s. (branch_length (nodes (leaves_root_node lib n s) m),
           clock_length (nodes (leaves_root_node lib n s) m)) =
          (branch_length (nodes s m), clock_length (nodes s m))"
  by (simp add: leaves_root_node_def Let_def nodes_set_node)

lemma root_leaves_node_lengths:
  "\<forall>n s. (branch_length (nodes (root_leaves_node lib n s) m),
           clock_length (nodes (root_leaves_node lib n s) m)) =
          (branch_length (nodes s m), clock_length (nodes s m))"
  by (simp add: root_leaves_node_def Let_def nodes_set_node split: option.splits)

lemma init_node_lengths:
  "\<forall>n s. (branch_length (nodes (init_node lib dc n s) m),
           clock_length (nodes (init_node lib dc n s) m)) =
          (branch_length (nodes s m), clock_length (nodes s m))"
  by (simp add: init_node_def Let_def nodes_set_node split: option.splits)

lemma init_interpolator_lengths:
  "\<forall>n s. (branch_length (nodes (init_interpolator lib n s) m),
           clock_length (nodes (init_interpolator lib n s) m)) =
          (branch_length (nodes s m), clock_length (nodes s m))"
  by (simp add: init_interpolator_def nodes_set_node)

lemma prepare_lengths:
  "(branch_length (nodes (init_date_constraints_prepare lib a k s) m),
    clock_length (nodes (init_date_constraints_prepare lib a k s) m)) =
   (branch_length (nodes (init_date_constraints_entry lib a s) m),
    clock_length (nodes (init_date_constraints_entry lib a s) m))"
  by (simp add: init_date_constraints_prepare_def Let_def set_date2dist_def
      fold_keeps [where g = "\<lambda>s. (branch_length (nodes s m), clock_length (nodes s m))",
        OF init_interpolator_lengths])

lemma init_lengths:
  assumes "init_date_constraints lib a k s = Inr s'"
  shows "(branch_length (nodes s' m), clock_length (nodes s' m)) =
   (branch_length (nodes (init_date_constraints_entry lib a s) m),
    clock_length (nodes (init_date_constraints_entry lib a s) m))"
proof -
  obtain dc where "init_date_constraints lib a k s =
      Inr (fold (init_node lib dc)
        (preorder (tree (init_date_constraints_prepare lib a k s)))
        (init_date_constraints_prepare lib a k s))"
    using init_returns [of lib a k s] by blast
  then have "s' = fold (init_node lib dc)
        (preorder (tree (init_date_constraints_prepare lib a k s)))
        (init_date_constraints_prepare lib a k s)"
    using assms by simp
  then show ?thesis
    by (simp add: prepare_lengths [of lib a k s m]
        fold_keeps [where g = "\<lambda>s. (branch_length (nodes s m), clock_length (nodes s m))",
          OF init_node_lengths])
qed

lemma upward_lengths:
  "(branch_length (nodes (ml_t_leaves_root lib s) m), clock_length (nodes (ml_t_leaves_root lib s) m)) =
   (branch_length (nodes s m), clock_length (nodes s m))"
  by (simp add: ml_t_leaves_root_def
      fold_keeps [where g = "\<lambda>s. (branch_length (nodes s m), clock_length (nodes s m))",
        OF leaves_root_node_lengths])

lemma downward_lengths:
  "(branch_length (nodes (ml_t_root_leaves lib s) m), clock_length (nodes (ml_t_root_leaves lib s) m)) =
   (branch_length (nodes s m), clock_length (nodes s m))"
  by (simp add: ml_t_root_leaves_def
      fold_keeps [where g = "\<lambda>s. (branch_length (nodes s m), clock_length (nodes s m))",
        OF root_leaves_node_lengths])

lemma convert_lengths:
  assumes "convert_dates lib s = Inr s'"
  shows "(branch_length (nodes s' m), clock_length (nodes s' m)) =
   (branch_length (nodes s m), clock_length (nodes s m))"
  using fold_err_keeps [where g = "\<lambda>s. (branch_length (nodes s m), clock_length (nodes s m))",
      OF convert_dates_node_lengths] assms
  unfolding convert_dates_def by blast

lemma final_lengths:
  assumes "distinct_nodes (tree s)" and "n \<in> set (preorder (tree s))"
    and "set_final_dates lib s = Inr s'"
  shows "clock_length (nodes s' n) = branch_length (nodes s' n) \<and> branch_length (nodes s' n) \<noteq> None"
proof (cases "up (tree s) n")
  case None
  from final_root [OF assms(1,2) None assms(3)] show ?thesis by auto
next
  case (Some p)
  from final_below [OF assms(1) Some assms(3)] show ?thesis by auto
qed

lemma entry_not_optimized:
  "\<not> a \<Longrightarrow> has_sequence (nodes s (ident (tree s))) \<Longrightarrow>
   nodes (init_date_constraints_entry lib a s) = nodes s"
  by (simp add: init_date_constraints_entry_def Let_def)

lemma init_lengths_not_optimized:
  assumes "\<not> a" and "has_sequence (nodes s (ident (tree s)))"
    and "init_date_constraints lib a k s = Inr s'"
  shows "clock_length (nodes s' m) = clock_length (nodes s m) \<and>
     branch_length (nodes s' m) = branch_length (nodes s m)"
  using init_lengths [OF assms(3), of m] entry_not_optimized [OF assms(1,2), of lib] by simp

text \<open>
  C10, as the code has it. After finalization \<open>clock_length\<close> and \<open>branch_length\<close> of every
  node of the tree are set and equal. The two passes and \<open>convert_dates\<close> leave both
  attributes as they are at every node. So do the assignments of \<open>init_date_constraints\<close>
  itself: after it both are what the entry of the method left, and when the entry does
  not call \<open>optimize_seq_and_branch_len\<close> (\<open>ancestral_inference\<close> is false and the root has
  a sequence) both are what they were before the method.
\<close>

theorem clock_length_equals_branch_length:
  "(distinct_nodes (tree s) \<and> n \<in> set (preorder (tree s)) \<and> set_final_dates lib s = Inr s' \<longrightarrow>
      clock_length (nodes s' n) = branch_length (nodes s' n) \<and> branch_length (nodes s' n) \<noteq> None) \<and>
   (init_date_constraints lib a k si = Inr si' \<longrightarrow>
      clock_length (nodes si' m) = clock_length (nodes (init_date_constraints_entry lib a si) m) \<and>
      branch_length (nodes si' m) = branch_length (nodes (init_date_constraints_entry lib a si) m)) \<and>
   (\<not> a \<and> has_sequence (nodes si (ident (tree si))) \<and>
    init_date_constraints lib a k si = Inr si' \<longrightarrow>
      clock_length (nodes si' m) = clock_length (nodes si m) \<and>
      branch_length (nodes si' m) = branch_length (nodes si m)) \<and>
   clock_length (nodes (ml_t_leaves_root lib su) m) = clock_length (nodes su m) \<and>
   branch_length (nodes (ml_t_leaves_root lib su) m) = branch_length (nodes su m) \<and>
   clock_length (nodes (ml_t_root_leaves lib su) m) = clock_length (nodes su m) \<and>
   branch_length (nodes (ml_t_root_leaves lib su) m) = branch_length (nodes su m) \<and>
   (convert_dates lib sc = Inr sc' \<longrightarrow>
      clock_length (nodes sc' m) = clock_length (nodes sc m) \<and>
      branch_length (nodes sc' m) = branch_length (nodes sc m))"
proof -
  have fin: "distinct_nodes (tree s) \<and> n \<in> set (preorder (tree s)) \<and> set_final_dates lib s = Inr s' \<longrightarrow>
      clock_length (nodes s' n) = branch_length (nodes s' n) \<and> branch_length (nodes s' n) \<noteq> None"
    using final_lengths [of s n lib s'] by blast
  have ini: "init_date_constraints lib a k si = Inr si' \<longrightarrow>
      clock_length (nodes si' m) = clock_length (nodes (init_date_constraints_entry lib a si) m) \<and>
      branch_length (nodes si' m) = branch_length (nodes (init_date_constraints_entry lib a si) m)"
    using init_lengths [of lib a k si si' m] by simp
  have plain: "\<not> a \<and> has_sequence (nodes si (ident (tree si))) \<and>
    init_date_constraints lib a k si = Inr si' \<longrightarrow>
      clock_length (nodes si' m) = clock_length (nodes si m) \<and>
      branch_length (nodes si' m) = branch_length (nodes si m)"
    using init_lengths_not_optimized [of a si lib k si' m] by blast
  have upw: "clock_length (nodes (ml_t_leaves_root lib su) m) = clock_length (nodes su m)"
    "branch_length (nodes (ml_t_leaves_root lib su) m) = branch_length (nodes su m)"
    using upward_lengths [of lib su m] by simp_all
  have dwn: "clock_length (nodes (ml_t_root_leaves lib su) m) = clock_length (nodes su m)"
    "branch_length (nodes (ml_t_root_leaves lib su) m) = branch_length (nodes su m)"
    using downward_lengths [of lib su m] by simp_all
  have cnv: "convert_dates lib sc = Inr sc' \<longrightarrow>
      clock_length (nodes sc' m) = clock_length (nodes sc m) \<and>
      branch_length (nodes sc' m) = branch_length (nodes sc m)"
    using convert_lengths [of lib sc sc' m] by simp
  from fin ini plain upw dwn cnv show ?thesis by blast
qed

theorem clock_length_equals_branch_length_witness:
  "distinct_nodes (tree ex_down) \<and> 2 \<in> set (preorder (tree ex_down)) \<and>
   set_final_dates ex_lib ex_down = Inr ex_final \<and>
   branch_length (nodes ex_final 2) = Some (- 2) \<and>
   clock_length (nodes ex_final 2) = Some (- 2) \<and>
   has_sequence (nodes ex_start (ident (tree ex_start))) \<and>
   init_date_constraints ex_lib False None ex_start = Inr ex_dated \<and>
   clock_length (nodes ex_dated 2) = None \<and> branch_length (nodes ex_dated 2) = None \<and>
   convert_dates ex_lib ex_final = Inr ex_converted \<and>
   branch_length (nodes ex_converted 2) = Some (- 2) \<and>
   clock_length (nodes ex_converted 2) = Some (- 2)"
proof -
  have h: "has_sequence (nodes ex_start (ident (tree ex_start)))"
    by (simp add: ex_start_def ex_tree_def blank_def)
  show ?thesis
    using clock_length_equals_branch_length [where s = ex_down and n = 2 and lib = ex_lib
      and s' = ex_final and a = False and k = None and si = ex_start and si' = ex_dated
      and m = 2 and su = ex_dated and sc = ex_final and sc' = ex_converted]
    by (simp add: h ex_final_run ex_dated_run ex_converted_run ex_final_eval ex_down_eval
        ex_tree_eval ex_dated_eval blank_def)
qed

text \<open>
  C10, as stated, fails: \<open>init_date_constraints\<close> calls \<open>optimize_seq_and_branch_len\<close>
  (\<open>ancestral_inference\<close> is true by default), which \<open>ClockTree\<close> inherits, and what that
  method assigns to \<open>branch_length\<close> stays. With an optimiser that assigns the branch
  length 1 to the node 2, \<open>init_date_constraints\<close> on the converted example leaves that
  node with \<open>branch_length\<close> 1 and \<open>clock_length\<close> -2.
\<close>

theorem branch_length_reassigned_counterexample:
  "map_sum id branch_length
     (node_after (init_date_constraints ex_lib_opt True None ex_converted) 2) = Inr (Some 1) \<and>
   map_sum id clock_length
     (node_after (init_date_constraints ex_lib_opt True None ex_converted) 2) = Inr (Some (- 2))"
proof -
  obtain s' where r: "init_date_constraints ex_lib_opt True None ex_converted = Inr s'"
    using init_returns [of ex_lib_opt True None ex_converted] by blast
  have c: "clock_length (nodes ex_final 2) = Some (- 2)"
    by (simp add: ex_final_def finished_def ex_down_eval ex_up_eval ex_dated_eval ex_tree_eval
        ex_base find_clades_def state_defs final_defs)
  have "clock_length (nodes ex_converted 2) = clock_length (nodes ex_final 2)"
    using convert_lengths [OF ex_converted_run, of 2] by simp
  then have cc: "clock_length (nodes ex_converted 2) = Some (- 2)" using c by simp
  have e: "nodes (init_date_constraints_entry ex_lib_opt True ex_converted) 2 =
      (nodes ex_converted 2)\<lparr>branch_length := Some 1\<rparr>"
    by (simp add: init_date_constraints_entry_def ex_lib_opt_def Let_def nodes_set_node)
  show ?thesis
    using init_lengths [OF r, of 2] by (simp add: r node_after_def e cc)
qed

subsection \<open>make\_time\_tree\<close>

text \<open>
  C2 does not hold of the code. \<open>make_time_tree\<close> raises NameError when the global name
  \<open>myTree\<close> is unbound, whatever instance it is called on. When \<open>myTree\<close> is bound to the
  instance at address 3 and the method is called on the one at address 2, the root of
  the instance it was called on has no \<open>time_before_present\<close> afterwards, and the root
  of the global instance has one.
\<close>

theorem make_time_tree_runs_on_global:
  "make_time_tree lib None self heap = Inl NameError \<and>
   map_sum id time_before_present
     (instance_after (make_time_tree ex_lib (Some 3) 2 ex_heap) 2 0) = Inr None \<and>
   map_sum id time_before_present
     (instance_after (make_time_tree ex_lib (Some 3) 2 ex_heap) 3 0) = Inr (Some (5 / 4))"
proof -
  have h: "ex_heap 3 = ex_dated" "ex_heap 2 = ex_dated" by (simp_all add: ex_heap_def)
  have r: "make_time_tree ex_lib (Some 3) 2 ex_heap = Inr (ex_heap(3 := ex_converted))"
    by (simp add: make_time_tree_def h ex_up_def [symmetric] ex_down_def [symmetric]
        ex_final_run ex_converted_run)
  show ?thesis
    by (simp add: r instance_after_def h ex_converted_eval ex_dated_eval blank_def)
       (simp add: make_time_tree_def)
qed

end
